theory Spec2Isabelle
  imports Main "HOL-Library.Sublist"
begin

section \<open>Strings of the host language\<close>

text \<open>
  A JavaScript string is modelled as a \<^typ>\<open>string\<close>: one \<^typ>\<open>char\<close> per code unit,
  for code units below 256. The helpers below are the string methods that
  \<^verbatim>\<open>router.ts\<close> calls, written out on that alphabet.
\<close>

definition is_white_space :: "char \<Rightarrow> bool" where
  \<comment> \<open>the characters removed by \<^verbatim>\<open>String.prototype.trim\<close>: TAB, LF, VT, FF, CR, SP, NBSP\<close>
  "is_white_space c =
     (c \<in> set [CHR 0x09, CHR 0x0A, CHR 0x0B, CHR 0x0C, CHR 0x0D, CHR 0x20, CHR 0xA0])"

definition is_line_terminator :: "char \<Rightarrow> bool" where
  \<comment> \<open>the characters that \<^verbatim>\<open>.\<close> of a regular expression does not match: LF and CR\<close>
  "is_line_terminator c = (c = CHR 0x0A \<or> c = CHR 0x0D)"

definition trim :: "string \<Rightarrow> string" where
  "trim s = rev (dropWhile is_white_space (rev (dropWhile is_white_space s)))"

definition lower_char :: "char \<Rightarrow> char" where
  \<comment> \<open>A-Z and the upper-case letters of Latin-1 (but not the multiplication sign)\<close>
  "lower_char c =
     (let n = (of_char c :: nat) in
      if (65 \<le> n \<and> n \<le> 90) \<or> (192 \<le> n \<and> n \<le> 222 \<and> n \<noteq> 215)
      then char_of (n + 32) else c)"

definition toLowerCase :: "string \<Rightarrow> string" where
  "toLowerCase s = map lower_char s"

definition before_question_mark :: "string \<Rightarrow> string" where
  \<comment> \<open>\<^verbatim>\<open>s.split('?')[0]\<close>\<close>
  "before_question_mark s = takeWhile (\<lambda>c. c \<noteq> CHR ''?'') s"

definition remove_trailing_slashes :: "string \<Rightarrow> string" where
  \<comment> \<open>\<^verbatim>\<open>s.replace(/\/+$/, '')\<close>\<close>
  "remove_trailing_slashes s = rev (dropWhile (\<lambda>c. c = CHR ''/'') (rev s))"

definition one_leading_slash :: "string \<Rightarrow> string" where
  \<comment> \<open>\<^verbatim>\<open>s.replace(/^\/*/, '/')\<close>\<close>
  "one_leading_slash s = CHR ''/'' # dropWhile (\<lambda>c. c = CHR ''/'') s"

subsection \<open>Placeholders of a path template\<close>

text \<open>
  \<^verbatim>\<open>path.replace(/\{.*?\}/g, r)\<close>: scanning from the left, an opening brace together
  with the text up to the nearest closing brace is replaced by \<open>r\<close>, provided no line
  terminator stands in between (the lazy \<^verbatim>\<open>.*?\<close> cannot cross one); every other
  character is kept.
\<close>

fun after_closing_brace :: "string \<Rightarrow> string option" where
  "after_closing_brace [] = None"
| "after_closing_brace (c # cs) =
     (if c = CHR ''}'' then Some cs
      else if is_line_terminator c then None
      else after_closing_brace cs)"

lemma after_closing_brace_shorter:
  "after_closing_brace cs = Some rest \<Longrightarrow> length rest < length cs"
  by (induction cs) (auto split: if_splits)

function replace_placeholders :: "string \<Rightarrow> string \<Rightarrow> string" where
  "replace_placeholders r [] = []"
| "replace_placeholders r (c # cs) =
     (if c = CHR ''{'' then
        (case after_closing_brace cs of
           Some rest \<Rightarrow> r @ replace_placeholders r rest
         | None \<Rightarrow> c # replace_placeholders r cs)
      else c # replace_placeholders r cs)"
  by pat_completeness auto
termination
  by (relation "measure (\<lambda>(r, s). length s)")
     (auto dest: after_closing_brace_shorter)

section \<open>Errors\<close>

datatype error =
    Error string                  \<comment> \<open>\<^verbatim>\<open>throw Error(message)\<close>\<close>
  | TypeError string              \<comment> \<open>raised by the host\<close>
  | SyntaxError string            \<comment> \<open>raised by the host: \<^verbatim>\<open>new RegExp\<close>, \<^verbatim>\<open>JSON.parse\<close>\<close>
  | Unsupported                   \<comment> \<open>an input outside the fragment that is interpreted\<close>

section \<open>Regular expressions\<close>

text \<open>
  The router builds two regular expressions from strings at run time:
  \<^verbatim>\<open>new RegExp(`^${apiRoot}/?`)\<close> and \<^verbatim>\<open>new RegExp(`^${pattern}$`, 'g')\<close>. The text of
  \<open>apiRoot\<close> and of a path template is read as pattern syntax by the host. This
  development interprets the following fragment of that syntax: an optional leading
  \<^verbatim>\<open>^\<close>, an optional trailing \<^verbatim>\<open>$\<close>, and in between a sequence of atoms, each with
  at most one greedy quantifier \<^verbatim>\<open>?\<close>, \<^verbatim>\<open>*\<close> or \<^verbatim>\<open>+\<close>. An atom is an ordinary
  character, the dot, or the class \<^verbatim>\<open>[^/]\<close>. A quantifier that stands where an atom
  must stand is the host's \<^verbatim>\<open>SyntaxError: Nothing to repeat\<close>. Every other pattern
  (groups, alternatives, other classes, escapes, braces, lazy quantifiers, inner
  anchors) is outside the fragment: the result is \<open>Unsupported\<close>, and the operation
  that needed the pattern ends with it.
\<close>

datatype atom = Chr char | Dot | Not_slash

datatype quantifier = Once | Opt | Star | Plus

type_synonym item = "atom \<times> quantifier"

record regexp =
  anchored_start :: bool
  anchored_end :: bool
  items :: "item list"

definition syntax_characters :: "char list" where
  "syntax_characters = CHR 0x5C # ''^$.*+?()[]{}|''"

definition ordinary :: "char \<Rightarrow> bool" where
  "ordinary c = (c \<notin> set syntax_characters)"

definition nothing_to_repeat :: error where
  "nothing_to_repeat = SyntaxError ''Nothing to repeat''"

fun parse_atom :: "string \<Rightarrow> error + atom \<times> string" where
  "parse_atom [] = Inl Unsupported"
| "parse_atom (c # cs) =
     (if ordinary c then Inr (Chr c, cs)
      else if c = CHR ''.'' then Inr (Dot, cs)
      else if c = CHR ''['' \<and> take 3 cs = ''^/]'' then Inr (Not_slash, drop 3 cs)
      else if c \<in> set ''*+?'' then Inl nothing_to_repeat
      else Inl Unsupported)"

fun parse_quantifier :: "string \<Rightarrow> error + quantifier \<times> string" where
  "parse_quantifier [] = Inr (Once, [])"
| "parse_quantifier (c # cs) =
     (if c \<in> set ''?*+'' then
        (if cs \<noteq> [] \<and> hd cs = CHR ''?'' then Inl Unsupported
         else Inr (if c = CHR ''?'' then Opt else if c = CHR ''*'' then Star else Plus, cs))
      else Inr (Once, c # cs))"

lemma parse_atom_shorter: "parse_atom s = Inr (a, rest) \<Longrightarrow> length rest < length s"
  by (cases s) (auto split: if_splits)

lemma parse_quantifier_shorter: "parse_quantifier s = Inr (q, rest) \<Longrightarrow> length rest \<le> length s"
  by (cases s) (auto split: if_splits)

function parse_items :: "string \<Rightarrow> error + item list \<times> bool" where
  "parse_items s =
     (if s = [] then Inr ([], False)
      else if s = ''$'' then Inr ([], True)
      else
        (case parse_atom s of
           Inl e \<Rightarrow> Inl e
         | Inr (a, s1) \<Rightarrow>
             (case parse_quantifier s1 of
                Inl e \<Rightarrow> Inl e
              | Inr (q, s2) \<Rightarrow>
                  (case parse_items s2 of
                     Inl e \<Rightarrow> Inl e
                   | Inr (its, e) \<Rightarrow> Inr ((a, q) # its, e)))))"
  by pat_completeness auto
termination
proof (relation "measure length", goal_cases)
  case 1
  show ?case by simp
next
  case (2 s x a s1 y q s2)
  then show ?case
    using parse_atom_shorter [of s a s1] parse_quantifier_shorter [of s1 q s2] by simp
qed

declare parse_items.simps [simp del]

definition RegExp :: "string \<Rightarrow> error + regexp" where
  "RegExp p =
     (let (st, body) = (if p \<noteq> [] \<and> hd p = CHR ''^'' then (True, tl p) else (False, p)) in
      case parse_items body of
        Inl e \<Rightarrow> Inl e
      | Inr (its, e) \<Rightarrow> Inr \<lparr>anchored_start = st, anchored_end = e, items = its\<rparr>)"

definition compiles :: "string \<Rightarrow> bool" where
  \<comment> \<open>the pattern lies in the interpreted fragment\<close>
  "compiles p = (case RegExp p of Inl e \<Rightarrow> False | Inr re \<Rightarrow> True)"

fun atom_matches :: "atom \<Rightarrow> char \<Rightarrow> bool" where
  "atom_matches (Chr c) d = (d = c)"
| "atom_matches Dot d = (\<not> is_line_terminator d)"
| "atom_matches Not_slash d = (d \<noteq> CHR ''/'')"

text \<open>
  \<open>remainders its s\<close> lists what is left of \<open>s\<close> after each way of matching \<open>its\<close> at
  its start, in the order in which a backtracking matcher tries them (greedy
  quantifiers take the longer alternative first).
\<close>

fun remainders :: "item list \<Rightarrow> string \<Rightarrow> string list" where
  "remainders [] s = [s]"
| "remainders ((a, Once) # its) s =
     (case s of [] \<Rightarrow> [] | d # ds \<Rightarrow> if atom_matches a d then remainders its ds else [])"
| "remainders ((a, Opt) # its) s =
     (case s of [] \<Rightarrow> [] | d # ds \<Rightarrow> if atom_matches a d then remainders its ds else [])
     @ remainders its s"
| "remainders ((a, Star) # its) s =
     (case s of [] \<Rightarrow> []
      | d # ds \<Rightarrow> if atom_matches a d then remainders ((a, Star) # its) ds else [])
     @ remainders its s"
| "remainders ((a, Plus) # its) s =
     (case s of [] \<Rightarrow> []
      | d # ds \<Rightarrow> if atom_matches a d then remainders ((a, Star) # its) ds else [])"

definition first_match :: "regexp \<Rightarrow> string \<Rightarrow> string option" where
  \<comment> \<open>the text after the match found at the start of \<open>s\<close>, if there is one\<close>
  "first_match re s =
     find (\<lambda>rest. \<not> anchored_end re \<or> rest = []) (remainders (items re) s)"

definition regexp_test :: "regexp \<Rightarrow> string \<Rightarrow> bool" where
  \<comment> \<open>\<^verbatim>\<open>Boolean(s.match(re))\<close>\<close>
  "regexp_test re s =
     (if anchored_start re then first_match re s \<noteq> None
      else list_ex (\<lambda>t. first_match re t \<noteq> None) (suffixes s))"

fun replace_scan :: "regexp \<Rightarrow> string \<Rightarrow> string \<Rightarrow> string" where
  "replace_scan re r [] = (case first_match re [] of Some rest \<Rightarrow> r @ rest | None \<Rightarrow> [])"
| "replace_scan re r (c # cs) =
     (case first_match re (c # cs) of
        Some rest \<Rightarrow> r @ rest
      | None \<Rightarrow> c # replace_scan re r cs)"

definition regexp_replace :: "regexp \<Rightarrow> string \<Rightarrow> string \<Rightarrow> string" where
  \<comment> \<open>\<^verbatim>\<open>s.replace(re, r)\<close> for a pattern without the \<^verbatim>\<open>g\<close> flag: the leftmost match\<close>
  "regexp_replace re r s =
     (if anchored_start re
      then (case first_match re s of Some rest \<Rightarrow> r @ rest | None \<Rightarrow> s)
      else replace_scan re r s)"

section \<open>Data model\<close>

text \<open>
  An object of the host language is an association list of its own enumerable
  properties in iteration order; a well-formed one has distinct keys. An optional
  property is an \<^typ>\<open>'a option\<close>, \<open>None\<close> for \<^verbatim>\<open>undefined\<close>.
\<close>

record parameter =
  name :: string
  located_in :: string            \<comment> \<open>the property \<^verbatim>\<open>in\<close>\<close>
  style :: "string option"
  explode :: "bool option"

type_synonym security_requirement = "(string \<times> string list) list"

text \<open>\<^verbatim>\<open>OpenAPIV3.OperationObject\<close>: the properties the router reads.\<close>

record operation_object =
  own_parameters :: "parameter list option"
  own_security :: "security_requirement list option"
  own_operationId :: "string option"

text \<open>
  A path item: its property \<^verbatim>\<open>parameters\<close>, and its other properties that hold an
  operation object, in iteration order.
\<close>

record path_item =
  shared_parameters :: "parameter list option"
  entries :: "(string \<times> operation_object) list"

record document =
  paths :: "(string \<times> path_item) list option"
  default_security :: "security_requirement list option"

text \<open>\<^verbatim>\<open>interface Operation\<close>, as \<open>getOperations\<close> builds it.\<close>

record operation =
  path :: string
  op_method :: string   \<comment> \<open>the property \<^verbatim>\<open>method\<close>\<close>
  parameters :: "parameter list"
  security :: "security_requirement list"
  operationId :: "string option"

record router =
  api_definition :: document  \<comment> \<open>the field \<^verbatim>\<open>definition\<close>\<close>
  apiRoot :: string

definition OpenAPIRouter :: "document \<Rightarrow> string option \<Rightarrow> router" where
  \<comment> \<open>the constructor: \<^verbatim>\<open>opts.apiRoot || '/'\<close>\<close>
  "OpenAPIRouter d root =
     \<lparr>api_definition = d,
      apiRoot = (case root of None \<Rightarrow> ''/'' | Some s \<Rightarrow> if s = [] then ''/'' else s)\<rparr>"

section \<open>Operation registry\<close>

definition http_methods :: "string list" where
  "http_methods =
     [''get'', ''put'', ''post'', ''delete'', ''options'', ''head'', ''patch'', ''trace'']"

definition pick :: "('k \<times> 'v) list \<Rightarrow> 'k list \<Rightarrow> ('k \<times> 'v) list" where
  \<comment> \<open>\<^verbatim>\<open>_.pick(object, keys)\<close>: a new object that receives, key by key in the order of
      \<open>keys\<close>, the properties that \<open>object\<close> has\<close>
  "pick obj ks = concat (map (\<lambda>k. case map_of obj k of None \<Rightarrow> [] | Some v \<Rightarrow> [(k, v)]) ks)"

definition or_empty :: "'a list option \<Rightarrow> 'a list" where
  \<comment> \<open>\<^verbatim>\<open>xs || []\<close>\<close>
  "or_empty xs = (case xs of None \<Rightarrow> [] | Some ys \<Rightarrow> ys)"

definition make_operation ::
  "document \<Rightarrow> string \<Rightarrow> path_item \<Rightarrow> string \<times> operation_object \<Rightarrow> operation" where
  "make_operation d p pathBaseObject e =
     (case e of (m, op) \<Rightarrow>
        \<lparr>path = p,
         op_method = m,
         parameters = or_empty (own_parameters op) @ or_empty (shared_parameters pathBaseObject),
         security =
           (case own_security op of
              Some s \<Rightarrow> s
            | None \<Rightarrow> (case default_security d of Some s \<Rightarrow> s | None \<Rightarrow> [])),
         operationId = own_operationId op\<rparr>)"

definition getOperations :: "router \<Rightarrow> operation list" where
  "getOperations r =
     concat (map (\<lambda>(p, pathBaseObject).
                    map (make_operation (api_definition r) p pathBaseObject)
                        (pick (entries pathBaseObject) http_methods))
                 (or_empty (paths (api_definition r))))"

definition getOperation :: "router \<Rightarrow> string \<Rightarrow> operation option" where
  "getOperation r oid = find (\<lambda>op. operationId op = Some oid) (getOperations r)"

section \<open>Request normaliser\<close>

datatype header_value = Header string | Headers "string list"

text \<open>
  The query of a raw request is absent, a string, or an object. An object is a
  reference into a store, since \<open>parseRequest\<close> writes to it.
\<close>

type_synonym address = nat

datatype raw_query = No_query | Query_string string | Query_object address

text \<open>
  A value of the host language as \<^verbatim>\<open>JSON.parse\<close> produces it. The numbers of the
  host are the values of a type \<open>'n\<close> that the router does not look into.
\<close>

datatype 'n json =
    JNull | JBool bool | JNum 'n | JStr string
  | JArr "'n json list" | JObj "(string \<times> 'n json) list"

record 'n request =
  req_method :: string
  req_path :: string
  req_headers :: "(string \<times> header_value) list"
  req_query :: raw_query
  req_body :: "'n json option"      \<comment> \<open>\<open>None\<close> for \<^verbatim>\<open>undefined\<close>\<close>

definition normalizeRequest :: "'n request \<Rightarrow> 'n request" where
  "normalizeRequest req =
     req\<lparr>req_path :=
           one_leading_slash (remove_trailing_slashes (before_question_mark (trim (req_path req)))),
         req_method := toLowerCase (trim (req_method req))\<rparr>"

definition normalizePath :: "router \<Rightarrow> string \<Rightarrow> error + string" where
  "normalizePath r p =
     (case RegExp (''^'' @ apiRoot r @ ''/?'') of
        Inl e \<Rightarrow> Inl e
      | Inr re \<Rightarrow> Inr (regexp_replace re ''/'' p))"

section \<open>Path matcher\<close>

definition pathPattern :: "string \<Rightarrow> string" where
  "pathPattern p = ''^'' @ replace_placeholders ''[^/]+'' p @ ''$''"

definition template_accepts :: "string \<Rightarrow> string \<Rightarrow> error + bool" where
  \<comment> \<open>the predicate of the second \<^verbatim>\<open>_.filter\<close>\<close>
  "template_accepts normalizedPath p =
     (case RegExp (pathPattern p) of
        Inl e \<Rightarrow> Inl e
      | Inr re \<Rightarrow> Inr (regexp_test re normalizedPath))"

fun filter_by :: "('a \<Rightarrow> error + bool) \<Rightarrow> 'a list \<Rightarrow> error + 'a list" where
  \<comment> \<open>\<^verbatim>\<open>_.filter\<close> with a predicate that may raise\<close>
  "filter_by f [] = Inr []"
| "filter_by f (x # xs) =
     (case f x of
        Inl e \<Rightarrow> Inl e
      | Inr b \<Rightarrow>
          (case filter_by f xs of
             Inl e \<Rightarrow> Inl e
           | Inr ys \<Rightarrow> Inr (if b then x # ys else ys)))"

definition specificity :: "operation \<Rightarrow> nat" where
  "specificity op = length (replace_placeholders [] (path op))"

definition orderBy_desc :: "('a \<Rightarrow> nat) \<Rightarrow> 'a list \<Rightarrow> 'a list" where
  \<comment> \<open>\<^verbatim>\<open>_.orderBy(xs, f, 'desc')\<close>: a stable sort, larger keys first\<close>
  "orderBy_desc f xs = sort_key (\<lambda>x. - int (f x)) xs"

definition not_found :: error where
  "not_found = Error ''404-notFound: no route matches request''"

definition method_not_allowed :: error where
  "method_not_allowed = Error ''405-methodNotAllowed: this method is not registered for the route''"

definition fail :: "bool \<Rightarrow> error \<Rightarrow> error + operation option" where
  \<comment> \<open>\<^verbatim>\<open>if (strict) { throw e } else { return undefined }\<close>\<close>
  "fail strict e = (if strict then Inl e else Inr None)"

definition exactPathMatches :: "router \<Rightarrow> string \<Rightarrow> operation list" where
  "exactPathMatches r normalizedPath = filter (\<lambda>op. path op = normalizedPath) (getOperations r)"

definition exactMatch :: "router \<Rightarrow> string \<Rightarrow> string \<Rightarrow> operation option" where
  "exactMatch r normalizedPath m =
     find (\<lambda>op. op_method op = m) (exactPathMatches r normalizedPath)"

definition templatePathMatches :: "router \<Rightarrow> string \<Rightarrow> error + operation list" where
  "templatePathMatches r normalizedPath =
     filter_by (\<lambda>op. template_accepts normalizedPath (path op)) (getOperations r)"

text \<open>
  Lines 99 to 141 of \<^verbatim>\<open>router.ts\<close>: the exact phase and the template phase, for the
  comparison path and the method of the normalised request.
\<close>

definition resolve :: "router \<Rightarrow> string \<Rightarrow> string \<Rightarrow> bool \<Rightarrow> error + operation option" where
  "resolve r normalizedPath m strict =
     (case exactMatch r normalizedPath m of
        Some op \<Rightarrow> Inr (Some op)
      | None \<Rightarrow>
          (case templatePathMatches r normalizedPath of
             Inl e \<Rightarrow> Inl e
           | Inr ms \<Rightarrow>
               if ms = [] then fail strict not_found
               else
                 (case find (\<lambda>op. op_method op = m) (orderBy_desc specificity ms) of
                    None \<Rightarrow> fail strict method_not_allowed
                  | Some op \<Rightarrow> Inr (Some op))))"

definition matchOperation :: "router \<Rightarrow> 'n request \<Rightarrow> bool \<Rightarrow> error + operation option" where
  "matchOperation r req0 strict =
     (let req = normalizeRequest req0 in
      if \<not> prefix (apiRoot r) (req_path req) then fail strict not_found
      else
        case normalizePath r (req_path req) of
          Inl e \<Rightarrow> Inl e
        | Inr normalizedPath \<Rightarrow> resolve r normalizedPath (req_method req) strict)"

section \<open>Library functions of the parameter parser\<close>

subsection \<open>\<^verbatim>\<open>JSON.parse\<close>\<close>

text \<open>
  \<^verbatim>\<open>JSON.parse\<close> is a function of the host, and the parameter parser takes it as it
  is (see \<open>libraries\<close> below). For the examples, this subsection interprets the grammar
  of JSON texts on a fragment, for a host whose numbers are the integers: a number is an
  integer of magnitude at most \<open>2\<^sup>5\<^sup>3\<close> (and not \<^verbatim>\<open>-0\<close>), and a \<^verbatim>\<open>\u\<close> escape denotes a
  code unit below 256. Outside the fragment the result is \<open>Unsupported\<close>; a text outside
  the grammar is the host's \<^verbatim>\<open>SyntaxError\<close>. The parser carries fuel for the nesting depth
  and for the number of elements, and \<open>JSON_fragment\<close> supplies more than the length of
  the text. In an object, a repeated key keeps its first position and takes the last
  value.
\<close>

definition json_syntax_error :: error where
  "json_syntax_error = SyntaxError ''JSON.parse''"

definition json_space :: "char \<Rightarrow> bool" where
  "json_space c = (c \<in> set [CHR 0x20, CHR 0x09, CHR 0x0A, CHR 0x0D])"

definition skip_space :: "string \<Rightarrow> string" where
  "skip_space s = dropWhile json_space s"

definition is_digit :: "char \<Rightarrow> bool" where
  "is_digit c = (48 \<le> (of_char c :: nat) \<and> (of_char c :: nat) \<le> 57)"

definition digit_value :: "char \<Rightarrow> nat" where
  "digit_value c = of_char c - 48"

definition hex_value :: "char \<Rightarrow> nat option" where
  "hex_value c =
     (let n = (of_char c :: nat) in
      if 48 \<le> n \<and> n \<le> 57 then Some (n - 48)
      else if 65 \<le> n \<and> n \<le> 70 then Some (n - 55)
      else if 97 \<le> n \<and> n \<le> 102 then Some (n - 87)
      else None)"

definition digits_value :: "string \<Rightarrow> int" where
  "digits_value ds = foldl (\<lambda>n c. 10 * n + int (digit_value c)) 0 ds"

fun put :: "('k \<times> 'v) list \<Rightarrow> 'k \<Rightarrow> 'v \<Rightarrow> ('k \<times> 'v) list" where
  \<comment> \<open>\<^verbatim>\<open>object[k] = v\<close>: an existing property keeps its place, a new one goes last\<close>
  "put [] k v = [(k, v)]"
| "put ((k', v') # obj) k v = (if k' = k then (k, v) # obj else (k', v') # put obj k v)"

definition escape_char :: "char \<Rightarrow> char option" where
  "escape_char e =
     (if e = CHR 0x22 \<or> e = CHR 0x5C \<or> e = CHR ''/'' then Some e
      else if e = CHR ''b'' then Some (CHR 0x08)
      else if e = CHR ''f'' then Some (CHR 0x0C)
      else if e = CHR ''n'' then Some (CHR 0x0A)
      else if e = CHR ''r'' then Some (CHR 0x0D)
      else if e = CHR ''t'' then Some (CHR 0x09)
      else None)"

definition unicode_escape :: "string \<Rightarrow> error + char" where
  \<comment> \<open>the four characters after \<^verbatim>\<open>\u\<close>\<close>
  "unicode_escape hs =
     (case map hex_value hs of
        [Some a, Some b, Some c, Some d] \<Rightarrow>
          if a = 0 \<and> b = 0 then Inr (char_of (16 * c + d)) else Inl Unsupported
      | _ \<Rightarrow> Inl json_syntax_error)"

function json_string :: "string \<Rightarrow> error + string \<times> string" where
  "json_string [] = Inl json_syntax_error"
| "json_string (c # cs) =
     (if c = CHR 0x22 then Inr ([], cs)
      else if (of_char c :: nat) < 32 then Inl json_syntax_error
      else if c = CHR 0x5C then
        (case cs of
           [] \<Rightarrow> Inl json_syntax_error
         | e # rest \<Rightarrow>
             if e = CHR ''u'' then
               (case unicode_escape (take 4 rest) of
                  Inl x \<Rightarrow> Inl x
                | Inr d \<Rightarrow>
                    (case json_string (drop 4 rest) of
                       Inl x \<Rightarrow> Inl x
                     | Inr (s, r) \<Rightarrow> Inr (d # s, r)))
             else
               (case escape_char e of
                  None \<Rightarrow> Inl json_syntax_error
                | Some d \<Rightarrow>
                    (case json_string rest of
                       Inl x \<Rightarrow> Inl x
                     | Inr (s, r) \<Rightarrow> Inr (d # s, r))))
      else
        (case json_string cs of
           Inl x \<Rightarrow> Inl x
         | Inr (s, r) \<Rightarrow> Inr (c # s, r)))"
  by pat_completeness auto
termination
  by (relation "measure length") auto

definition json_number :: "string \<Rightarrow> error + int json \<times> string" where
  "json_number s =
     (let (negative, t) = (if s \<noteq> [] \<and> hd s = CHR ''-'' then (True, tl s) else (False, s));
          ds = takeWhile is_digit t;
          rest = dropWhile is_digit t
      in if ds = [] \<or> (hd ds = CHR ''0'' \<and> length ds > 1) then Inl json_syntax_error
         else if rest \<noteq> [] \<and> hd rest \<in> set ''.eE'' then Inl Unsupported
         else if digits_value ds > 9007199254740992 \<or> (negative \<and> digits_value ds = 0)
           then Inl Unsupported
         else Inr (JNum (if negative then - digits_value ds else digits_value ds), rest))"

type_synonym 'a parser = "string \<Rightarrow> error + 'a \<times> string"

definition element_tail :: "int json list parser \<Rightarrow> int json \<Rightarrow> int json list parser" where
  \<comment> \<open>after an element of an array: the closing bracket, or a comma and more elements\<close>
  "element_tail continue v s =
     (case s of
        [] \<Rightarrow> Inl json_syntax_error
      | d # ds \<Rightarrow>
          if d = CHR '']'' then Inr ([v], ds)
          else if d = CHR '','' then
            (case continue (skip_space ds) of
               Inl x \<Rightarrow> Inl x
             | Inr (vs, r) \<Rightarrow> Inr (v # vs, r))
          else Inl json_syntax_error)"

primrec json_elements :: "int json parser \<Rightarrow> nat \<Rightarrow> int json list parser" where
  "json_elements val 0 s = Inl Unsupported"
| "json_elements val (Suc m) s =
     (case val s of
        Inl x \<Rightarrow> Inl x
      | Inr (v, r) \<Rightarrow> element_tail (json_elements val m) v (skip_space r))"

definition member_tail ::
  "(string \<times> int json) list parser \<Rightarrow> string \<Rightarrow> int json
     \<Rightarrow> (string \<times> int json) list parser" where
  \<comment> \<open>after a member of an object: the closing brace, or a comma and more members\<close>
  "member_tail continue k v s =
     (case s of
        [] \<Rightarrow> Inl json_syntax_error
      | d # ds \<Rightarrow>
          if d = CHR ''}'' then Inr ([(k, v)], ds)
          else if d = CHR '','' then
            (case continue (skip_space ds) of
               Inl x \<Rightarrow> Inl x
             | Inr (ms, r) \<Rightarrow> Inr ((k, v) # ms, r))
          else Inl json_syntax_error)"

definition member_key :: "string parser" where
  \<comment> \<open>a key and the colon after it\<close>
  "member_key s =
     (case s of
        [] \<Rightarrow> Inl json_syntax_error
      | q # s1 \<Rightarrow>
          if q \<noteq> CHR 0x22 then Inl json_syntax_error
          else
            (case json_string s1 of
               Inl x \<Rightarrow> Inl x
             | Inr (k, r) \<Rightarrow>
                 (case skip_space r of
                    [] \<Rightarrow> Inl json_syntax_error
                  | c # cs \<Rightarrow>
                      if c = CHR '':'' then Inr (k, skip_space cs) else Inl json_syntax_error)))"

primrec json_members :: "int json parser \<Rightarrow> nat \<Rightarrow> (string \<times> int json) list parser" where
  "json_members val 0 s = Inl Unsupported"
| "json_members val (Suc m) s =
     (case member_key s of
        Inl x \<Rightarrow> Inl x
      | Inr (k, r) \<Rightarrow>
          (case val r of
             Inl x \<Rightarrow> Inl x
           | Inr (v, r1) \<Rightarrow> member_tail (json_members val m) k v (skip_space r1)))"

definition json_literal :: "int json parser" where
  \<comment> \<open>a value that is neither an object nor an array\<close>
  "json_literal s =
     (if s \<noteq> [] \<and> hd s = CHR 0x22 then
        (case json_string (tl s) of Inl x \<Rightarrow> Inl x | Inr (str, r) \<Rightarrow> Inr (JStr str, r))
      else if take 4 s = ''true'' then Inr (JBool True, drop 4 s)
      else if take 5 s = ''false'' then Inr (JBool False, drop 5 s)
      else if take 4 s = ''null'' then Inr (JNull, drop 4 s)
      else if s \<noteq> [] \<and> (hd s = CHR ''-'' \<or> is_digit (hd s)) then json_number s
      else Inl json_syntax_error)"

definition json_object :: "int json parser \<Rightarrow> nat \<Rightarrow> int json parser" where
  \<comment> \<open>after the opening brace\<close>
  "json_object val n s =
     (if s \<noteq> [] \<and> hd s = CHR ''}'' then Inr (JObj [], tl s)
      else
        (case json_members val n s of
           Inl x \<Rightarrow> Inl x
         | Inr (ms, r) \<Rightarrow> Inr (JObj (foldl (\<lambda>obj (k, v). put obj k v) [] ms), r)))"

definition json_array :: "int json parser \<Rightarrow> nat \<Rightarrow> int json parser" where
  \<comment> \<open>after the opening bracket\<close>
  "json_array val n s =
     (if s \<noteq> [] \<and> hd s = CHR '']'' then Inr (JArr [], tl s)
      else
        (case json_elements val n s of
           Inl x \<Rightarrow> Inl x
         | Inr (vs, r) \<Rightarrow> Inr (JArr vs, r)))"

primrec json_value :: "nat \<Rightarrow> int json parser" where
  "json_value 0 s = Inl Unsupported"
| "json_value (Suc n) s =
     (if s \<noteq> [] \<and> hd s = CHR ''{'' then json_object (json_value n) n (skip_space (tl s))
      else if s \<noteq> [] \<and> hd s = CHR ''['' then json_array (json_value n) n (skip_space (tl s))
      else json_literal s)"

definition JSON_fragment :: "string \<Rightarrow> error + int json" where
  "JSON_fragment s =
     (case json_value (Suc (length s)) (skip_space s) of
        Inl x \<Rightarrow> Inl x
      | Inr (v, r) \<Rightarrow> if skip_space r = [] then Inr v else Inl json_syntax_error)"

subsection \<open>\<^verbatim>\<open>qs.parse\<close>\<close>

text \<open>
  A value of a query object is a string or an array of strings; \<open>QUndefined\<close> is a
  property that holds \<^verbatim>\<open>undefined\<close>. The library is interpreted on query strings without
  brackets, in the text and in the decoded keys, so that every key is a top-level
  property, and with percent escapes below \<^verbatim>\<open>%80\<close>; the result is \<open>Unsupported\<close> for any
  other query string. The options are those of the two calls in \<^verbatim>\<open>router.ts\<close>: the
  defaults, with or without \<^verbatim>\<open>comma: true\<close>.
\<close>

datatype query_value = QUndefined | QString string | QArray "string list"

type_synonym query_object = "(string \<times> query_value) list"

fun split_on :: "char \<Rightarrow> string \<Rightarrow> string list" where
  \<comment> \<open>\<^verbatim>\<open>s.split(d)\<close> for a separator of one character\<close>
  "split_on d [] = [[]]"
| "split_on d (c # cs) =
     (if c = d then [] # split_on d cs
      else (case split_on d cs of [] \<Rightarrow> [[c]] | w # ws \<Rightarrow> (c # w) # ws))"

definition is_hex :: "char \<Rightarrow> bool" where
  "is_hex c = (hex_value c \<noteq> None)"

fun well_escaped :: "string \<Rightarrow> bool" where
  \<comment> \<open>every percent sign is followed by two hexadecimal digits\<close>
  "well_escaped [] = True"
| "well_escaped (c # cs) =
     (if c = CHR ''%'' then
        (case cs of a # b # rest \<Rightarrow> is_hex a \<and> is_hex b \<and> well_escaped rest | _ \<Rightarrow> False)
      else well_escaped cs)"

definition escape_value :: "char \<Rightarrow> char \<Rightarrow> nat" where
  "escape_value a b =
     16 * (case hex_value a of None \<Rightarrow> 0 | Some n \<Rightarrow> n)
     + (case hex_value b of None \<Rightarrow> 0 | Some n \<Rightarrow> n)"

fun has_high_escape :: "string \<Rightarrow> bool" where
  \<comment> \<open>some escape denotes a byte of a multi-byte UTF-8 sequence\<close>
  "has_high_escape [] = False"
| "has_high_escape (c # cs) =
     (if c = CHR ''%'' then
        (case cs of
           a # b # rest \<Rightarrow> 128 \<le> escape_value a b \<or> has_high_escape rest
         | _ \<Rightarrow> False)
      else has_high_escape cs)"

fun unescape :: "string \<Rightarrow> string" where
  "unescape [] = []"
| "unescape (c # cs) =
     (if c = CHR ''%'' then
        (case cs of
           a # b # rest \<Rightarrow> char_of (escape_value a b) # unescape rest
         | _ \<Rightarrow> c # cs)
      else c # unescape cs)"

definition decode :: "string \<Rightarrow> error + string" where
  \<comment> \<open>the default decoder: plus signs become spaces, then \<^verbatim>\<open>decodeURIComponent\<close>, whose
      \<^verbatim>\<open>URIError\<close> is caught and leaves the text as it is\<close>
  "decode s =
     (let strWithoutPlus = map (\<lambda>c. if c = CHR ''+'' then CHR '' '' else c) s in
      if \<not> well_escaped strWithoutPlus then Inr strWithoutPlus
      else if has_high_escape strWithoutPlus then Inl Unsupported
      else Inr (unescape strWithoutPlus))"

fun decode_all :: "string list \<Rightarrow> error + string list" where
  "decode_all [] = Inr []"
| "decode_all (s # ss) =
     (case decode s of
        Inl e \<Rightarrow> Inl e
      | Inr t \<Rightarrow> (case decode_all ss of Inl e \<Rightarrow> Inl e | Inr ts \<Rightarrow> Inr (t # ts)))"

definition parse_part :: "bool \<Rightarrow> string \<Rightarrow> error + string \<times> query_value" where
  \<comment> \<open>one \<^verbatim>\<open>key=value\<close> part; \<open>comma\<close> is the option \<^verbatim>\<open>comma: true\<close>\<close>
  "parse_part comma part =
     (if CHR ''='' \<notin> set part then
        (case decode part of Inl e \<Rightarrow> Inl e | Inr k \<Rightarrow> Inr (k, QString []))
      else
        (let raw = tl (dropWhile (\<lambda>c. c \<noteq> CHR ''='') part) in
         case decode (takeWhile (\<lambda>c. c \<noteq> CHR ''='') part) of
           Inl e \<Rightarrow> Inl e
         | Inr k \<Rightarrow>
             if comma \<and> CHR '','' \<in> set raw then
               (case decode_all (split_on CHR '','' raw) of
                  Inl e \<Rightarrow> Inl e
                | Inr vs \<Rightarrow> Inr (k, QArray vs))
             else (case decode raw of Inl e \<Rightarrow> Inl e | Inr v \<Rightarrow> Inr (k, QString v))))"

fun as_list :: "query_value \<Rightarrow> string list" where
  "as_list QUndefined = []"
| "as_list (QString s) = [s]"
| "as_list (QArray ss) = ss"

definition combine :: "query_value \<Rightarrow> query_value \<Rightarrow> query_value" where
  \<comment> \<open>\<^verbatim>\<open>[].concat(a, b)\<close>, for a key that occurs again\<close>
  "combine a b = QArray (as_list a @ as_list b)"

fun parse_values :: "bool \<Rightarrow> string list \<Rightarrow> query_object \<Rightarrow> error + query_object" where
  "parse_values comma [] obj = Inr obj"
| "parse_values comma (part # parts) obj =
     (case parse_part comma part of
        Inl e \<Rightarrow> Inl e
      | Inr (k, v) \<Rightarrow>
          parse_values comma parts
            (put obj k (case map_of obj k of None \<Rightarrow> v | Some old \<Rightarrow> combine old v)))"

definition object_prototype_keys :: "string list" where
  \<comment> \<open>keys that the library drops, because \<^verbatim>\<open>Object.prototype\<close> has them\<close>
  "object_prototype_keys =
     [''constructor'', ''__defineGetter__'', ''__defineSetter__'', ''hasOwnProperty'',
      ''__lookupGetter__'', ''__lookupSetter__'', ''isPrototypeOf'', ''propertyIsEnumerable'',
      ''toString'', ''valueOf'', ''__proto__'', ''toLocaleString'']"

definition has_bracket :: "string \<Rightarrow> bool" where
  "has_bracket s = (CHR ''['' \<in> set s \<or> CHR '']'' \<in> set s)"

definition parseQuery :: "bool \<Rightarrow> string option \<Rightarrow> error + query_object" where
  \<comment> \<open>\<^verbatim>\<open>parseQuery(str)\<close> and \<^verbatim>\<open>parseQuery(str, { comma: true })\<close>\<close>
  "parseQuery comma str =
     (case str of
        None \<Rightarrow> Inr []
      | Some s \<Rightarrow>
          if s = [] then Inr []
          else if has_bracket s then Inl Unsupported
          else
            (case parse_values comma (take 1000 (split_on CHR ''&'' s)) [] of
               Inl e \<Rightarrow> Inl e
             | Inr obj \<Rightarrow>
                 if list_ex (\<lambda>(k, v). has_bracket k) obj then Inl Unsupported
                 else Inr (filter (\<lambda>(k, v). k \<noteq> [] \<and> k \<notin> set object_prototype_keys) obj)))"

section \<open>Parameter parser\<close>

text \<open>
  The query objects live in a store: a list of objects, an address being a position in
  it. The object of a raw request is shared with the caller; \<open>parseQuery\<close> makes a new
  one. No other object is written to by \<^verbatim>\<open>router.ts\<close>, so the other objects are values.
\<close>

type_synonym store = "query_object list"

definition load :: "store \<Rightarrow> address \<Rightarrow> query_object" where
  "load st a = (if a < length st then st ! a else [])"

definition save :: "store \<Rightarrow> address \<Rightarrow> query_object \<Rightarrow> store" where
  "save st a obj = st[a := obj]"

text \<open>
  \<^verbatim>\<open>bath(template).params(path)\<close> and \<^verbatim>\<open>cookie.parse(text)\<close> are functions of two other
  libraries. They read strings and return new objects; the parser takes them as they
  are. So it does \<^verbatim>\<open>JSON.parse\<close>, which returns a value or raises an error, and the two
  operations of the host on a number that the parser needs: the test whether it counts
  as true, and \<^verbatim>\<open>toString\<close>.
\<close>

record 'n libraries =
  bath_params :: "string \<Rightarrow> string \<Rightarrow> (string \<times> string) list option"
  cookie_parse :: "string \<Rightarrow> (string \<times> string) list"
  JSON_parse :: "string \<Rightarrow> error + 'n json"
  number_truthy :: "'n \<Rightarrow> bool"
  number_toString :: "'n \<Rightarrow> string"

text \<open>\<^verbatim>\<open>interface ParsedRequest\<close>.\<close>

record 'n parsed_request =
  parsed_method :: string        \<comment> \<open>\<^verbatim>\<open>method\<close>, \<^verbatim>\<open>path\<close> and \<^verbatim>\<open>body\<close> of the normalised request\<close>
  parsed_path :: string
  parsed_body :: "'n json option"
  params :: "(string \<times> string) list"
  headers :: "(string \<times> header_value) list"
  query :: address
  cookies :: "(string \<times> string) list"
  requestBody :: "'n json option"

subsection \<open>Body\<close>

fun truthy :: "'n libraries \<Rightarrow> 'n json \<Rightarrow> bool" where
  "truthy lib JNull = False"
| "truthy lib (JBool b) = b"
| "truthy lib (JNum n) = number_truthy lib n"
| "truthy lib (JStr s) = (s \<noteq> [])"
| "truthy lib (JArr vs) = True"
| "truthy lib (JObj ms) = True"

fun is_object :: "'n json \<Rightarrow> bool" where
  \<comment> \<open>\<^verbatim>\<open>typeof v === 'object'\<close>\<close>
  "is_object JNull = True"
| "is_object (JArr vs) = True"
| "is_object (JObj ms) = True"
| "is_object v = False"

fun toString :: "'n libraries \<Rightarrow> 'n json \<Rightarrow> string" where
  \<comment> \<open>\<^verbatim>\<open>v.toString()\<close> of a string, a boolean or a number\<close>
  "toString lib (JStr s) = s"
| "toString lib (JBool b) = (if b then ''true'' else ''false'')"
| "toString lib (JNum n) = number_toString lib n"
| "toString lib v = []"

definition parseBody :: "'n libraries \<Rightarrow> 'n json option \<Rightarrow> error + 'n json option" where
  \<comment> \<open>lines 232 to 241; an error that \<^verbatim>\<open>JSON.parse\<close> raises is caught; \<open>Unsupported\<close> is not
      one: it is the answer of a function that does not decide the text\<close>
  "parseBody lib body =
     (case body of
        None \<Rightarrow> Inr None
      | Some v \<Rightarrow>
          if truthy lib v \<and> \<not> is_object v then
            (case JSON_parse lib (toString lib v) of
               Inr parsed \<Rightarrow> Inr (Some parsed)
             | Inl e \<Rightarrow> if e = Unsupported then Inl Unsupported else Inr (Some v))
          else Inr (Some v))"

subsection \<open>Headers and the cookie text\<close>

definition mapKeys_lower :: "(string \<times> 'v) list \<Rightarrow> (string \<times> 'v) list" where
  \<comment> \<open>\<^verbatim>\<open>_.mapKeys(obj, (val, key) => key.toLowerCase())\<close>\<close>
  "mapKeys_lower obj = foldl (\<lambda>acc (k, v). put acc (toLowerCase k) v) [] obj"

fun join :: "string \<Rightarrow> string list \<Rightarrow> string" where
  "join sep [] = []"
| "join sep [s] = s"
| "join sep (s # t # ss) = s @ sep @ join sep (t # ss)"

definition cookie_text :: "header_value option \<Rightarrow> string" where
  \<comment> \<open>\<^verbatim>\<open>_.flatten([cookieHeader]).join('; ')\<close>\<close>
  "cookie_text h =
     (case h of None \<Rightarrow> [] | Some (Header s) \<Rightarrow> s | Some (Headers ss) \<Rightarrow> join ''; '' ss)"

subsection \<open>Query\<close>

definition query_string_of :: "string \<Rightarrow> string option" where
  \<comment> \<open>\<^verbatim>\<open>path.split('?')[1]\<close>\<close>
  "query_string_of p =
     (case dropWhile (\<lambda>c. c \<noteq> CHR ''?'') p of
        [] \<Rightarrow> None
      | q # rest \<Rightarrow> Some (takeWhile (\<lambda>c. c \<noteq> CHR ''?'') rest))"

fun replace_char :: "char \<Rightarrow> string \<Rightarrow> string" where
  \<comment> \<open>every occurrence of the character becomes a comma\<close>
  "replace_char x s = map (\<lambda>c. if c = x then CHR '','' else c) s"

fun replace_escape :: "char \<Rightarrow> char \<Rightarrow> string \<Rightarrow> string" where
  \<comment> \<open>every occurrence of \<^verbatim>\<open>%xy\<close> becomes a comma\<close>
  "replace_escape x y (a # b # c # rest) =
     (if a = CHR ''%'' \<and> b = x \<and> c = y then CHR '','' # replace_escape x y rest
      else a # replace_escape x y (b # c # rest))"
| "replace_escape x y s = s"

definition commaQueryString :: "parameter \<Rightarrow> string \<Rightarrow> string" where
  "commaQueryString p queryString =
     (let s1 = (if style p = Some ''spaceDelimited''
                then replace_escape CHR ''2'' CHR ''0'' (replace_char CHR '' '' queryString)
                else queryString)
      in if style p = Some ''pipeDelimited''
         then replace_escape CHR ''7'' CHR ''C'' (replace_char CHR ''|'' s1)
         else s1)"

fun query_truthy :: "query_value \<Rightarrow> bool" where
  "query_truthy QUndefined = False"
| "query_truthy (QString s) = (s \<noteq> [])"
| "query_truthy (QArray ss) = True"

definition reparse :: "parameter list \<Rightarrow> string \<Rightarrow> string \<times> query_value \<Rightarrow> error + string \<times> query_value"
  where
  \<comment> \<open>the body of the loop of lines 268 to 287, for one property of the query\<close>
  "reparse ps queryString kv =
     (case kv of (queryParam, v) \<Rightarrow>
        if query_truthy v then
          (case find (\<lambda>p. name p = queryParam \<and> located_in p = ''query'') ps of
             None \<Rightarrow> Inr (queryParam, v)
           | Some p \<Rightarrow>
               if explode p = Some False then
                 (case parseQuery True (Some (commaQueryString p queryString)) of
                    Inl e \<Rightarrow> Inl e
                  | Inr commaParsed \<Rightarrow>
                      Inr (queryParam,
                           case map_of commaParsed queryParam of
                             None \<Rightarrow> QUndefined
                           | Some w \<Rightarrow> w))
               else Inr (queryParam, v))
        else Inr (queryParam, v))"

fun first_pass :: "parameter list \<Rightarrow> string \<Rightarrow> query_object \<Rightarrow> error + query_object" where
  "first_pass ps queryString [] = Inr []"
| "first_pass ps queryString (kv # kvs) =
     (case reparse ps queryString kv of
        Inl e \<Rightarrow> Inl e
      | Inr kv' \<Rightarrow>
          (case first_pass ps queryString kvs of
             Inl e \<Rightarrow> Inl e
           | Inr kvs' \<Rightarrow> Inr (kv' # kvs')))"

definition delimiter :: "parameter \<Rightarrow> char" where
  "delimiter p =
     (if style p = Some ''spaceDelimited'' then CHR '' ''
      else if style p = Some ''pipeDelimited'' then CHR ''|''
      else CHR '','')"

definition is_string :: "query_value option \<Rightarrow> bool" where
  \<comment> \<open>\<^verbatim>\<open>_.isString(query[name])\<close>\<close>
  "is_string v = (case v of Some (QString s) \<Rightarrow> True | _ \<Rightarrow> False)"

definition unsplit :: "query_object \<Rightarrow> parameter list \<Rightarrow> parameter list" where
  \<comment> \<open>the two filters of lines 293 and 295, both evaluated before the loop starts\<close>
  "unsplit q ps =
     filter (\<lambda>p. is_string (map_of q (name p)))
       (filter (\<lambda>p. explode p = Some False \<and> located_in p = ''query'') ps)"

fun split_each :: "parameter list \<Rightarrow> query_object \<Rightarrow> query_object \<times> error option" where
  \<comment> \<open>the \<^verbatim>\<open>forEach\<close> of lines 296 to 300: the object as the loop leaves it, and the error
      that ended the loop, if any\<close>
  "split_each [] q = (q, None)"
| "split_each (p # ps) q =
     (case map_of q (name p) of
        Some (QString s) \<Rightarrow> split_each ps (put q (name p) (QArray (split_on (delimiter p) s)))
      | _ \<Rightarrow> (q, Some (TypeError ''query[p.name].split is not a function'')))"

definition second_pass :: "parameter list \<Rightarrow> query_object \<Rightarrow> query_object \<times> error option" where
  "second_pass ps q = split_each (unsplit q ps) q"

subsection \<open>\<open>parseRequest\<close>\<close>

definition initial_query :: "store \<Rightarrow> 'n request \<Rightarrow> error + address \<times> store" where
  \<comment> \<open>line 252: the object of the request itself, or a new object\<close>
  "initial_query st req =
     (case req_query req of
        Query_object a \<Rightarrow> Inr (a, st)
      | _ \<Rightarrow>
          (case parseQuery False (query_string_of (req_path req)) of
             Inl e \<Rightarrow> Inl e
           | Inr q \<Rightarrow> Inr (length st, st @ [q])))"

definition is_query_object :: "raw_query \<Rightarrow> bool" where
  \<comment> \<open>\<^verbatim>\<open>typeof req.query === 'object'\<close>\<close>
  "is_query_object q = (case q of Query_object a \<Rightarrow> True | _ \<Rightarrow> False)"

definition with_operation ::
  "'n libraries \<Rightarrow> router \<Rightarrow> 'n request \<Rightarrow> operation \<Rightarrow> address \<Rightarrow> store
     \<Rightarrow> store \<times> (error + (string \<times> string) list)" where
  \<comment> \<open>lines 259 to 300: the store as they leave it, and the path parameters or the
      error\<close>
  "with_operation lib r req operation a st =
     (case normalizePath r (req_path (normalizeRequest req)) of
        Inl e \<Rightarrow> (st, Inl e)
      | Inr normalizedPath \<Rightarrow>
          (let ps = (case bath_params lib (path operation) normalizedPath of
                       None \<Rightarrow> [] | Some found \<Rightarrow> found);
               queryString = query_string_of (req_path req);
               reparsed =
                 (case queryString of
                    None \<Rightarrow> Inr (load st a)
                  | Some qs \<Rightarrow>
                      if \<not> is_query_object (req_query req) \<and> qs \<noteq> []
                      then first_pass (parameters operation) qs (load st a)
                      else Inr (load st a))
           in case reparsed of
                Inl e \<Rightarrow> (st, Inl e)
              | Inr q1 \<Rightarrow>
                  (case second_pass (parameters operation) q1 of
                     (q2, None) \<Rightarrow> (save st a q2, Inr ps)
                   | (q2, Some e) \<Rightarrow> (save st a q2, Inl e))))"

definition parseRequest ::
  "'n libraries \<Rightarrow> router \<Rightarrow> store \<Rightarrow> 'n request \<Rightarrow> operation option
     \<Rightarrow> store \<times> (error + 'n parsed_request)" where
  "parseRequest lib r st req operation =
     (case parseBody lib (req_body req) of
        Inl e \<Rightarrow> (st, Inl e)
      | Inr body \<Rightarrow>
          (let hs = mapKeys_lower (req_headers req);
               cs = cookie_parse lib (cookie_text (map_of hs ''cookie''))
           in case initial_query st req of
                Inl e \<Rightarrow> (st, Inl e)
              | Inr (a, st1) \<Rightarrow>
                  (case (case operation of
                           None \<Rightarrow> (st1, Inr [])
                         | Some op \<Rightarrow> with_operation lib r req op a st1) of
                     (st2, Inl e) \<Rightarrow> (st2, Inl e)
                   | (st2, Inr ps) \<Rightarrow>
                       (st2,
                        Inr \<lparr>parsed_method = req_method (normalizeRequest req),
                             parsed_path = req_path (normalizeRequest req),
                             parsed_body = req_body req,
                             params = ps,
                             headers = hs,
                             query = a,
                             cookies = cs,
                             requestBody = body\<rparr>))))"

section \<open>Example contracts and requests\<close>

definition plain_operation :: operation_object where
  "plain_operation = \<lparr>own_parameters = None, own_security = None, own_operationId = None\<rparr>"

definition only_methods :: "(string \<times> operation_object) list \<Rightarrow> path_item" where
  "only_methods es = \<lparr>shared_parameters = None, entries = es\<rparr>"

definition simple_request :: "string \<Rightarrow> string \<Rightarrow> int request" where
  "simple_request m p =
     \<lparr>req_method = m, req_path = p, req_headers = [], req_query = No_query, req_body = None\<rparr>"

definition registered :: "string \<Rightarrow> string \<Rightarrow> operation" where
  \<comment> \<open>the descriptor of a \<open>plain_operation\<close> in a document without default security\<close>
  "registered p m = \<lparr>path = p, op_method = m, parameters = [], security = [], operationId = None\<rparr>"

definition pets_document :: document where
  "pets_document =
     \<lparr>paths = Some
        [(''/pets/{id}'', only_methods [(''get'', plain_operation)]),
         (''/pets/{id}/photos'', only_methods [(''get'', plain_operation)]),
         (''/pets/mine'', only_methods [(''get'', plain_operation)])],
      default_security = None\<rparr>"

definition pets_router :: router where
  "pets_router = OpenAPIRouter pets_document None"

definition overlap_router :: router where
  \<comment> \<open>two templates that accept the same paths, the less specific one registered first\<close>
  "overlap_router =
     OpenAPIRouter
       \<lparr>paths = Some
          [(''/{kind}/{id}'', only_methods [(''get'', plain_operation)]),
           (''/pets/{id}'', only_methods [(''get'', plain_operation)])],
        default_security = None\<rparr>
       None"

definition category_router :: router where
  \<comment> \<open>two templates that differ in the name of the placeholder only\<close>
  "category_router =
     OpenAPIRouter
       \<lparr>paths = Some
          [(''/pets/{category}'', only_methods [(''get'', plain_operation)]),
           (''/pets/{id}'', only_methods [(''get'', plain_operation)])],
        default_security = None\<rparr>
       None"

definition rooted_router :: router where
  "rooted_router =
     OpenAPIRouter
       \<lparr>paths = Some [(''/ary/pets'', only_methods [(''get'', plain_operation)])],
        default_security = None\<rparr>
       (Some ''/api'')"

definition repeat_router :: router where
  \<comment> \<open>a template with two plus signs\<close>
  "repeat_router =
     OpenAPIRouter
       \<lparr>paths = Some [(''/c++'', only_methods [(''get'', plain_operation)])],
        default_security = None\<rparr>
       None"

definition versioned_router :: router where
  \<comment> \<open>a root with a plus sign\<close>
  "versioned_router =
     OpenAPIRouter
       \<lparr>paths = Some [(''/pets'', only_methods [(''get'', plain_operation)])],
        default_security = None\<rparr>
       (Some ''/v1+'')"

definition unordered_router :: router where
  \<comment> \<open>a path item that declares \<^verbatim>\<open>post\<close> before \<^verbatim>\<open>get\<close>\<close>
  "unordered_router =
     OpenAPIRouter
       \<lparr>paths = Some
          [(''/pets'', only_methods [(''post'', plain_operation), (''get'', plain_operation)])],
        default_security = None\<rparr>
       None"

definition limit_parameter :: "string \<Rightarrow> parameter" where
  "limit_parameter s =
     \<lparr>name = ''limit'', located_in = ''query'', style = Some s, explode = Some False\<rparr>"

definition collision_router :: router where
  \<comment> \<open>\<^verbatim>\<open>limit\<close> is declared by the path item and again by its operation\<close>
  "collision_router =
     OpenAPIRouter
       \<lparr>paths = Some
          [(''/pets'',
            \<lparr>shared_parameters = Some [limit_parameter ''form''],
             entries =
               [(''get'',
                 \<lparr>own_parameters = Some [limit_parameter ''pipeDelimited''],
                  own_security = None,
                  own_operationId = Some ''listPets''\<rparr>)]\<rparr>)],
        default_security = Some [[(''apiKey'', [])]]\<rparr>
       None"

function decimal :: "nat \<Rightarrow> string" where
  "decimal n = (if n < 10 then [char_of (48 + n)] else decimal (n div 10) @ [char_of (48 + n mod 10)])"
  by pat_completeness auto
termination
  by (relation "measure id") auto

declare decimal.simps [simp del]

definition integer_toString :: "int \<Rightarrow> string" where
  "integer_toString n = (if n < 0 then CHR ''-'' # decimal (nat (- n)) else decimal (nat n))"

definition no_libraries :: "int libraries" where
  \<comment> \<open>stand-ins for the two libraries that the claims do not depend on, and a host whose
      numbers are the integers, with \<^verbatim>\<open>JSON.parse\<close> on the fragment interpreted above\<close>
  "no_libraries =
     \<lparr>bath_params = (\<lambda>template p. None), cookie_parse = (\<lambda>text. []),
      JSON_parse = JSON_fragment, number_truthy = (\<lambda>n. n \<noteq> 0),
      number_toString = integer_toString\<rparr>"

definition array_parameter :: "string \<Rightarrow> string option \<Rightarrow> parameter" where
  \<comment> \<open>a query parameter declared with \<^verbatim>\<open>explode: false\<close>\<close>
  "array_parameter n s = \<lparr>name = n, located_in = ''query'', style = s, explode = Some False\<rparr>"

definition operation_with :: "parameter list \<Rightarrow> operation" where
  "operation_with ps =
     \<lparr>path = ''/pets'', op_method = ''get'', parameters = ps, security = [],
      operationId = None\<rparr>"

definition raw_request :: "string \<Rightarrow> raw_query \<Rightarrow> int json option \<Rightarrow> int request" where
  "raw_request p q b =
     \<lparr>req_method = ''GET'', req_path = p, req_headers = [], req_query = q, req_body = b\<rparr>"

definition parsed_pets :: "int json option \<Rightarrow> int json option \<Rightarrow> int parsed_request" where
  \<comment> \<open>what \<open>parseRequest\<close> returns for \<^verbatim>\<open>GET /pets\<close> with the query object at address 0\<close>
  "parsed_pets b rb =
     \<lparr>parsed_method = ''get'', parsed_path = ''/pets'', parsed_body = b, params = [],
      headers = [], query = 0, cookies = [], requestBody = rb\<rparr>"

definition object_text :: string where
  \<comment> \<open>the text \<^verbatim>\<open>{"x":1}\<close>\<close>
  "object_text = [CHR ''{'', CHR 0x22, CHR ''x'', CHR 0x22, CHR '':'', CHR ''1'', CHR ''}'']"

definition override_router :: router where
  \<comment> \<open>the path item declares \<^verbatim>\<open>limit\<close> as an array that is not exploded; the operation
      declares it again, exploded\<close>
  "override_router =
     OpenAPIRouter
       \<lparr>paths = Some
          [(''/pets'',
            \<lparr>shared_parameters = Some [array_parameter ''limit'' (Some ''form'')],
             entries =
               [(''get'',
                 \<lparr>own_parameters = Some
                    [\<lparr>name = ''limit'', located_in = ''query'', style = Some ''form'',
                      explode = Some True\<rparr>],
                  own_security = None,
                  own_operationId = None\<rparr>)]\<rparr>)],
        default_security = None\<rparr>
       None"

subsection \<open>The registry as the specification words it\<close>

definition operation_key :: "operation \<Rightarrow> string \<times> string" where
  "operation_key op = (path op, op_method op)"

definition declared_methods :: "path_item \<Rightarrow> string list" where
  \<comment> \<open>the methods a path item declares, in the order in which \<open>getOperations\<close> visits them\<close>
  "declared_methods item = filter (\<lambda>m. map_of (entries item) m \<noteq> None) http_methods"

definition document_order :: "document \<Rightarrow> (string \<times> string) list" where
  \<comment> \<open>one (path, method) pair per declared method per path, in the iteration order of
      the document: paths in order, and the properties of each path item in order\<close>
  "document_order d =
     concat (map (\<lambda>(p, item).
                    map (Pair p) (filter (\<lambda>k. k \<in> set http_methods) (map fst (entries item))))
                 (or_empty (paths d)))"

subsection \<open>Root stripping as the specification words it\<close>

definition self_matching :: "char \<Rightarrow> bool" where
  \<comment> \<open>as a pattern, the character matches itself, once\<close>
  "self_matching c = (ordinary c \<or> c = CHR ''.'')"

definition literal_atom :: "char \<Rightarrow> atom" where
  "literal_atom c = (if c = CHR ''.'' then Dot else Chr c)"

definition strip_root :: "string \<Rightarrow> string \<Rightarrow> string" where
  \<comment> \<open>\<open>p\<close> without the prefix \<open>R\<close> and without one slash after it, behind a single slash\<close>
  "strip_root R p =
     (let rest = drop (length R) p in
      CHR ''/'' # (if rest \<noteq> [] \<and> hd rest = CHR ''/'' then tl rest else rest))"

subsection \<open>The body as the specification words it\<close>

definition decoded :: "'n libraries \<Rightarrow> 'n json \<Rightarrow> 'n json" where
  \<comment> \<open>attempt a JSON decode of the text of the value; on failure, keep the value\<close>
  "decoded lib v = (case JSON_parse lib (toString lib v) of Inr parsed \<Rightarrow> parsed | Inl e \<Rightarrow> v)"

subsection \<open>Template matching as the specification words it\<close>

text \<open>
  The template is read from left to right against the whole path. A placeholder, from
  an opening brace to the next closing brace, takes one or more characters other than
  the slash; every other character of the template takes itself; the path ends where
  the template ends.
\<close>

function template_matches :: "string \<Rightarrow> string \<Rightarrow> bool" where
  "template_matches [] P = (P = [])"
| "template_matches (c # cs) P =
     (if c = CHR ''{'' then
        (case after_closing_brace cs of
           Some rest \<Rightarrow>
             list_ex (\<lambda>n. list_all (\<lambda>d. d \<noteq> CHR ''/'') (take n P)
                          \<and> template_matches rest (drop n P))
               [1..<Suc (length P)]
         | None \<Rightarrow> P \<noteq> [] \<and> hd P = c \<and> template_matches cs (tl P))
      else P \<noteq> [] \<and> hd P = c \<and> template_matches cs (tl P))"
  by pat_completeness auto
termination
  by (relation "measure (\<lambda>(t, P). length t)") (auto dest: after_closing_brace_shorter)

declare template_matches.simps [simp del]

subsection \<open>Templates without pattern syntax\<close>

text \<open>
  The pattern of a template whose characters outside the placeholders are ordinary:
  one item for each such character and one for each placeholder.
\<close>

function template_items :: "string \<Rightarrow> item list" where
  "template_items [] = []"
| "template_items (c # cs) =
     (if c = CHR ''{'' then
        (case after_closing_brace cs of
           Some rest \<Rightarrow> (Not_slash, Plus) # template_items rest
         | None \<Rightarrow> (Chr c, Once) # template_items cs)
      else (Chr c, Once) # template_items cs)"
  by pat_completeness auto
termination
  by (relation "measure length") (auto dest: after_closing_brace_shorter)

definition template_ordinary :: "string \<Rightarrow> bool" where
  "template_ordinary t = list_all ordinary (replace_placeholders [] t)"

fun min_length :: "item list \<Rightarrow> nat" where
  "min_length [] = 0"
| "min_length ((a, q) # its) = (if q = Once \<or> q = Plus then 1 else 0) + min_length its"

section \<open>Auxiliary facts\<close>

subsection \<open>Lists\<close>

lemma find_filter: "find P (filter Q xs) = find (\<lambda>x. Q x \<and> P x) xs"
  by (induction xs) auto

lemma find_as_filter: "find P xs = (case filter P xs of [] \<Rightarrow> None | x # _ \<Rightarrow> Some x)"
  by (induction xs) auto

lemma find_distinct_key:
  "distinct (map k xs) \<Longrightarrow> d \<in> set xs \<Longrightarrow> find (\<lambda>x. k x = k d) xs = Some d"
  by (induction xs) (auto simp: image_iff)

lemma filter_by_total:
  "\<forall>x \<in> set xs. \<exists>b. f x = Inr b \<Longrightarrow>
   filter_by f xs = Inr (filter (\<lambda>x. f x = Inr True) xs)"
  by (induction xs) (auto split: sum.splits)

lemma filter_by_Inr:
  "filter_by f xs = Inr ys \<Longrightarrow> ys = filter (\<lambda>x. f x = Inr True) xs"
  by (induction xs arbitrary: ys) (auto split: sum.splits if_splits)

lemma hd_sort_key:
  fixes f :: "'a \<Rightarrow> 'b::linorder"
  assumes "ys \<noteq> []" and h_def: "h = hd (sort_key f ys)"
  shows "h \<in> set ys" and "\<forall>y \<in> set ys. f h \<le> f y" and "find (\<lambda>y. f y = f h) ys = Some h"
proof -
  from assms(1) have ne: "sort_key f ys \<noteq> []"
    by (metis length_0_conv length_sort)
  then obtain t where s: "sort_key f ys = h # t"
    unfolding h_def by (cases "sort_key f ys") auto
  have "set (sort_key f ys) = set ys" by simp
  with s show "h \<in> set ys" by (metis list.set_intros(1))
  have "sorted (map f (sort_key f ys))" by (rule sorted_sort_key)
  with s have "\<forall>y \<in> set t. f h \<le> f y" by simp
  with s \<open>set (sort_key f ys) = set ys\<close> show "\<forall>y \<in> set ys. f h \<le> f y"
    by (metis order_refl set_ConsD)
  have "filter (\<lambda>y. f y = f h) (sort_key f ys) = filter (\<lambda>y. f y = f h) ys"
    by (rule sort_key_stable)
  with s have "filter (\<lambda>y. f y = f h) ys = h # filter (\<lambda>y. f y = f h) t" by simp
  then show "find (\<lambda>y. f y = f h) ys = Some h"
    by (simp add: find_as_filter)
qed

lemma find_orderBy_desc_None:
  "find P (orderBy_desc f xs) = None \<longleftrightarrow> (\<forall>x \<in> set xs. \<not> P x)"
  by (auto simp: orderBy_desc_def find_None_iff)

lemma find_orderBy_desc_Some:
  assumes "find P (orderBy_desc f xs) = Some d"
  shows "d \<in> set xs \<and> P d \<and> (\<forall>x \<in> set xs. P x \<longrightarrow> f x \<le> f d)
         \<and> find (\<lambda>x. P x \<and> f x = f d) xs = Some d"
proof -
  let ?g = "\<lambda>x. - int (f x)"
  let ?ys = "filter P xs"
  have "find P (sort_key ?g xs) = (case sort_key ?g ?ys of [] \<Rightarrow> None | x # _ \<Rightarrow> Some x)"
    by (simp add: find_as_filter filter_sort)
  with assms have s: "sort_key ?g ?ys \<noteq> []" and d: "d = hd (sort_key ?g ?ys)"
    by (auto simp: orderBy_desc_def split: list.splits)
  from s have ne: "?ys \<noteq> []" by auto
  from hd_sort_key [OF ne d]
  have 1: "d \<in> set ?ys" and 2: "\<forall>y \<in> set ?ys. ?g d \<le> ?g y"
    and 3: "find (\<lambda>y. ?g y = ?g d) ?ys = Some d"
    by simp_all
  from 3 have "find (\<lambda>x. P x \<and> f x = f d) xs = Some d"
    by (simp add: find_filter)
  with 1 2 show ?thesis by auto
qed

subsection \<open>The registry\<close>

lemma map_fst_pick: "map fst (pick obj ks) = filter (\<lambda>k. map_of obj k \<noteq> None) ks"
  by (induction ks) (auto simp: pick_def split: option.splits)

lemma pick_lookup: "(k, v) \<in> set (pick obj ks) \<longleftrightarrow> k \<in> set ks \<and> map_of obj k = Some v"
  by (induction ks) (auto simp: pick_def split: option.splits)

lemma operation_key_make: "operation_key (make_operation d p item e) = (p, fst e)"
  by (cases e) (simp add: operation_key_def make_operation_def)

lemma keys_getOperations:
  "map operation_key (getOperations r) =
   concat (map (\<lambda>(p, item). map (Pair p) (declared_methods item))
               (or_empty (paths (api_definition r))))"
proof -
  have "map operation_key (map (make_operation d p item) (pick (entries item) http_methods))
        = map (Pair p) (declared_methods item)" for d p item
  proof -
    have "map operation_key (map (make_operation d p item) (pick (entries item) http_methods))
          = map (Pair p) (map fst (pick (entries item) http_methods))"
      by (simp add: comp_def operation_key_make)
    then show ?thesis by (simp only: map_fst_pick declared_methods_def)
  qed
  then show ?thesis
    by (simp add: getOperations_def map_concat comp_def split_def)
qed

lemma distinct_http_methods: "distinct http_methods"
  by (simp add: http_methods_def)

lemma distinct_keyed_concat:
  "distinct (map fst ps) \<Longrightarrow> (\<And>x. distinct (f x)) \<Longrightarrow>
   distinct (concat (map (\<lambda>(p, x). map (Pair p) (f x)) ps))"
proof (induction ps)
  case Nil
  then show ?case by simp
next
  case (Cons a ps)
  obtain p x where a: "a = (p, x)" by (cases a)
  from Cons a have "p \<notin> fst ` set ps" by simp
  then have "set (map (Pair p) (f x))
             \<inter> set (concat (map (\<lambda>(p, x). map (Pair p) (f x)) ps)) = {}"
    by (auto simp: image_iff)
  with Cons a show ?case by (simp add: distinct_map inj_on_def)
qed

lemma distinct_keys_getOperations:
  "distinct (map fst (or_empty (paths (api_definition r)))) \<Longrightarrow>
   distinct (map operation_key (getOperations r))"
  unfolding keys_getOperations
  by (rule distinct_keyed_concat) (simp_all add: declared_methods_def distinct_http_methods)

subsection \<open>The matcher\<close>

lemma exactMatch_registered:
  assumes "distinct (map fst (or_empty (paths (api_definition r))))"
    and "d \<in> set (getOperations r)"
  shows "exactMatch r (path d) (op_method d) = Some d"
proof -
  have "exactMatch r (path d) (op_method d)
        = find (\<lambda>op. operation_key op = operation_key d) (getOperations r)"
    by (simp add: exactMatch_def exactPathMatches_def find_filter operation_key_def)
  also have "\<dots> = Some d"
    using assms by (intro find_distinct_key distinct_keys_getOperations)
  finally show ?thesis .
qed

lemma exactMatch_None:
  "exactMatch r P m = None \<longleftrightarrow> (\<forall>op \<in> set (getOperations r). path op = P \<longrightarrow> op_method op \<noteq> m)"
  by (auto simp: exactMatch_def exactPathMatches_def find_None_iff)

lemma template_accepts_supported:
  "RegExp (pathPattern p) = Inr re \<Longrightarrow> template_accepts P p = Inr (regexp_test re P)"
  by (simp add: template_accepts_def)

lemma templatePathMatches_supported:
  assumes "\<forall>op \<in> set (getOperations r). compiles (pathPattern (path op))"
  shows "templatePathMatches r P =
         Inr (filter (\<lambda>op. template_accepts P (path op) = Inr True) (getOperations r))"
  unfolding templatePathMatches_def
  using assms
  by (intro filter_by_total) (auto simp: template_accepts_def compiles_def split: sum.splits)

lemma parse_atom_self_matching:
  "self_matching c \<Longrightarrow> parse_atom (c # cs) = Inr (literal_atom c, cs)"
  by (auto simp: self_matching_def literal_atom_def ordinary_def syntax_characters_def)

lemma self_matching_not_special:
  "self_matching c \<Longrightarrow> c \<noteq> CHR ''$'' \<and> c \<noteq> CHR ''?'' \<and> c \<noteq> CHR ''*'' \<and> c \<noteq> CHR ''+''"
  by (auto simp: self_matching_def ordinary_def syntax_characters_def)

lemma parse_items_self_matching:
  assumes "\<forall>c \<in> set R. self_matching c"
  shows "parse_items (R @ ''/?'')
         = Inr (map (\<lambda>c. (literal_atom c, Once)) R @ [(Chr CHR ''/'', Opt)], False)"
  using assms
proof (induction R)
  case Nil
  have "parse_items ''/?'' = Inr ([(Chr CHR ''/'', Opt)], False)"
    by (subst parse_items.simps, subst parse_items.simps)
       (simp add: ordinary_def syntax_characters_def)
  then show ?case by simp
next
  case (Cons c R)
  then have c: "self_matching c" and IH:
    "parse_items (R @ ''/?'')
     = Inr (map (\<lambda>c. (literal_atom c, Once)) R @ [(Chr CHR ''/'', Opt)], False)"
    by simp_all
  note c' = self_matching_not_special [OF c]
  have q: "parse_quantifier (R @ ''/?'') = Inr (Once, R @ ''/?'')"
  proof (cases R)
    case Nil
    then show ?thesis by simp
  next
    case (Cons b R')
    with Cons.prems have "self_matching b" by simp
    from self_matching_not_special [OF this] Cons show ?thesis by simp
  qed
  show ?case
    by (subst parse_items.simps)
       (simp add: parse_atom_self_matching [OF c] c' q IH del: parse_atom.simps)
qed

lemma RegExp_self_matching_root:
  assumes "\<forall>c \<in> set R. self_matching c"
  shows "RegExp (CHR ''^'' # R @ ''/?'') =
         Inr \<lparr>anchored_start = True, anchored_end = False,
               items = map (\<lambda>c. (literal_atom c, Once)) R @ [(Chr CHR ''/'', Opt)]\<rparr>"
  by (simp add: RegExp_def parse_items_self_matching [OF assms])

lemma remainders_literal_prefix:
  "remainders (map (\<lambda>c. (literal_atom c, Once)) R @ its) (R @ s) = remainders its s"
  by (induction R) (simp_all add: literal_atom_def is_line_terminator_def)

lemma normalizePath_self_matching_root:
  assumes "\<forall>c \<in> set (apiRoot r). self_matching c" and "prefix (apiRoot r) p"
  shows "normalizePath r p = Inr (strip_root (apiRoot r) p)"
proof -
  from assms(2) obtain s where p: "p = apiRoot r @ s" by (auto simp: prefix_def)
  have "first_match \<lparr>anchored_start = True, anchored_end = False,
                     items = map (\<lambda>c. (literal_atom c, Once)) (apiRoot r)
                             @ [(Chr CHR ''/'', Opt)]\<rparr> p
        = Some (if s \<noteq> [] \<and> hd s = CHR ''/'' then tl s else s)"
    using remainders_literal_prefix [of "apiRoot r" "[(Chr CHR ''/'', Opt)]" s]
    by (cases s) (simp_all add: first_match_def p)
  then show ?thesis
    by (simp add: normalizePath_def RegExp_self_matching_root [OF assms(1)] regexp_replace_def
        strip_root_def p Let_def)
qed

subsection \<open>Templates without pattern syntax\<close>

lemma ordinary_facts:
  "ordinary c \<Longrightarrow> c \<noteq> CHR ''$'' \<and> c \<noteq> CHR ''?'' \<and> c \<noteq> CHR ''*'' \<and> c \<noteq> CHR ''+''
     \<and> c \<noteq> CHR ''{'' \<and> c \<noteq> CHR ''['' \<and> c \<noteq> CHR ''.''"
  by (auto simp: ordinary_def syntax_characters_def)

lemma not_ordinary_brace: "\<not> ordinary CHR ''{''"
  by (simp add: ordinary_def syntax_characters_def)

lemma pattern_head:
  assumes "template_ordinary t"
  shows "replace_placeholders ''[^/]+'' t @ ''$'' \<noteq> []
         \<and> hd (replace_placeholders ''[^/]+'' t @ ''$'') \<notin> set ''?*+''"
proof (cases t)
  case Nil
  then show ?thesis by simp
next
  case (Cons c cs)
  show ?thesis
  proof (cases "c = CHR ''{'' \<and> after_closing_brace cs \<noteq> None")
    case True
    with Cons show ?thesis by auto
  next
    case False
    with Cons assms have "ordinary c"
      by (auto simp: template_ordinary_def split: option.splits if_splits)
    with Cons False ordinary_facts [of c] show ?thesis
      by (auto split: option.splits)
  qed
qed

lemma parse_items_template:
  "template_ordinary t \<Longrightarrow>
   parse_items (replace_placeholders ''[^/]+'' t @ ''$'') = Inr (template_items t, True)"
proof (induction t rule: template_items.induct)
  case 1
  show ?case by (subst parse_items.simps) simp
next
  case (2 c cs)
  show ?case
  proof (cases "c = CHR ''{'' \<and> after_closing_brace cs \<noteq> None")
    case True
    then obtain rest where rest: "after_closing_brace cs = Some rest" and c: "c = CHR ''{''"
      by auto
    from "2.prems" rest c have ord: "template_ordinary rest"
      by (simp add: template_ordinary_def)
    note IH = "2.IH"(2) [OF c rest ord]
    note h = pattern_head [OF ord]
    have q: "parse_quantifier (CHR ''+'' # replace_placeholders ''[^/]+'' rest @ ''$'')
             = Inr (Plus, replace_placeholders ''[^/]+'' rest @ ''$'')"
      using h by (cases "replace_placeholders ''[^/]+'' rest @ ''$''") auto
    show ?thesis
      by (subst parse_items.simps)
         (simp add: c rest IH q ordinary_def syntax_characters_def del: parse_quantifier.simps)
  next
    case False
    with "2.prems" have ordc: "ordinary c" and ord: "template_ordinary cs"
      by (auto simp: template_ordinary_def split: option.splits if_splits)
    from False ordc not_ordinary_brace have nb: "c \<noteq> CHR ''{''" by auto
    note IH = "2.IH"(3) [OF nb ord]
    note h = pattern_head [OF ord]
    have q: "parse_quantifier (replace_placeholders ''[^/]+'' cs @ ''$'')
             = Inr (Once, replace_placeholders ''[^/]+'' cs @ ''$'')"
      using h by (cases "replace_placeholders ''[^/]+'' cs @ ''$''") auto
    show ?thesis
      using ordinary_facts [OF ordc]
      by (subst parse_items.simps)
         (simp add: nb ordc IH q del: parse_quantifier.simps)
  qed
qed

lemma RegExp_template:
  "template_ordinary t \<Longrightarrow>
   RegExp (pathPattern t) = Inr \<lparr>anchored_start = True, anchored_end = True, items = template_items t\<rparr>"
  by (simp add: RegExp_def pathPattern_def parse_items_template)


lemma remainders_min_length:
  "r \<in> set (remainders its s) \<Longrightarrow> min_length its + length r \<le> length s"
proof (induction its s arbitrary: r rule: remainders.induct)
  case (1 s)
  then show ?case by simp
next
  case (2 a its s)
  show ?case
  proof (cases s)
    case Nil
    with "2.prems" show ?thesis by simp
  next
    case (Cons d ds)
    with "2.prems" have m: "atom_matches a d" and r: "r \<in> set (remainders its ds)"
      by (auto split: if_splits)
    from "2.IH" [OF Cons m r] Cons show ?thesis by simp
  qed
next
  case (3 a its s)
  from "3.prems" consider
    (skip) "r \<in> set (remainders its s)"
    | (take) d ds where "s = d # ds" "atom_matches a d" "r \<in> set (remainders its ds)"
    by (cases s) (auto split: if_splits)
  then show ?case
  proof cases
    case skip
    from "3.IH"(2) [OF this] show ?thesis by simp
  next
    case take
    from "3.IH"(1) [OF take] take(1) show ?thesis by simp
  qed
next
  case (4 a its s)
  have eq: "remainders ((a, Star) # its) s =
      (case s of [] \<Rightarrow> []
       | d # ds \<Rightarrow> if atom_matches a d then remainders ((a, Star) # its) ds else [])
      @ remainders its s"
    by (rule remainders.simps)
  from "4.prems" [unfolded eq] consider
    (skip) "r \<in> set (remainders its s)"
    | (take) d ds where "s = d # ds" "atom_matches a d"
        "r \<in> set (remainders ((a, Star) # its) ds)"
    by (cases s) (auto split: if_splits simp del: remainders.simps)
  then show ?case
  proof cases
    case skip
    from "4.IH"(2) [OF this] show ?thesis by simp
  next
    case take
    from "4.IH"(1) [OF take] take(1) show ?thesis by (simp del: remainders.simps)
  qed
next
  case (5 a its s)
  show ?case
  proof (cases s)
    case Nil
    with "5.prems" show ?thesis by simp
  next
    case (Cons d ds)
    have eq: "remainders ((a, Plus) # its) (d # ds) =
        (if atom_matches a d then remainders ((a, Star) # its) ds else [])"
      by (simp del: remainders.simps(4) add: remainders.simps(5))
    from "5.prems" [unfolded Cons eq] have m: "atom_matches a d"
      and r: "r \<in> set (remainders ((a, Star) # its) ds)"
      by (auto split: if_splits simp del: remainders.simps)
    from "5.IH" [OF Cons m r] Cons show ?thesis by (simp del: remainders.simps)
  qed
qed

lemma literal_length_le: "length (replace_placeholders [] t) \<le> min_length (template_items t)"
  by (induction t rule: template_items.induct) (auto split: option.splits)

lemma accepted_literal_is_equal:
  "[] \<in> set (remainders (template_items t) P) \<Longrightarrow>
   length P \<le> length (replace_placeholders [] t) \<Longrightarrow> P = t"
proof (induction t arbitrary: P rule: template_items.induct)
  case 1
  then show ?case by simp
next
  case (2 c cs)
  show ?case
  proof (cases "c = CHR ''{'' \<and> after_closing_brace cs \<noteq> None")
    case True
    then obtain rest where rest: "after_closing_brace cs = Some rest" and c: "c = CHR ''{''"
      by auto
    from remainders_min_length [OF "2.prems"(1)] rest c
    have "1 + min_length (template_items rest) \<le> length P" by simp
    moreover from "2.prems"(2) rest c have "length P \<le> length (replace_placeholders [] rest)"
      by simp
    ultimately show ?thesis
      using literal_length_le [of rest] by simp
  next
    case False
    then have items: "template_items (c # cs) = (Chr c, Once) # template_items cs"
      and lit: "replace_placeholders [] (c # cs) = c # replace_placeholders [] cs"
      by (auto split: option.splits)
    from "2.prems"(1) obtain ds where P: "P = c # ds"
      and r: "[] \<in> set (remainders (template_items cs) ds)"
      unfolding items by (cases P) (auto split: if_splits)
    from "2.prems"(2) P lit have len: "length ds \<le> length (replace_placeholders [] cs)"
      by simp
    from False have "ds = cs"
    proof (cases "c = CHR ''{''")
      case True
      with False have "after_closing_brace cs = None" by simp
      from "2.IH"(1) [OF True this r len] show ?thesis .
    next
      case False
      from "2.IH"(3) [OF False r len] show ?thesis .
    qed
    with P show ?thesis by simp
  qed
qed


lemma no_brace_literal: "CHR ''{'' \<notin> set t \<Longrightarrow> replace_placeholders r t = t"
  by (induction t) auto

lemma no_brace_items: "CHR ''{'' \<notin> set t \<Longrightarrow> template_items t = map (\<lambda>c. (Chr c, Once)) t"
  by (induction t) auto

lemma remainders_literal_self: "remainders (map (\<lambda>c. (Chr c, Once)) t) t = [[]]"
  by (induction t) simp_all

lemma template_accepts_ordinary:
  assumes "template_ordinary t"
  shows "template_accepts P t = Inr ([] \<in> set (remainders (template_items t) P))"
proof -
  have "(find (\<lambda>rest. rest = []) xs \<noteq> None) = ([] \<in> set xs)" for xs :: "string list"
    by (induction xs) auto
  then show ?thesis
    by (simp add: template_accepts_def RegExp_template [OF assms] regexp_test_def first_match_def)
qed

subsection \<open>The pattern of a placeholder\<close>

lemma remainders_Star_Nil:
  "remainders ((a, Star) # its) [] = remainders its []"
  by (subst remainders.simps(4)) simp

lemma remainders_Star_Cons:
  "remainders ((a, Star) # its) (d # ds) =
     (if atom_matches a d then remainders ((a, Star) # its) ds else []) @ remainders its (d # ds)"
  by (subst remainders.simps(4)) simp

lemma remainders_Plus_Nil:
  "remainders ((a, Plus) # its) [] = []"
  by (subst remainders.simps(5)) simp

lemma remainders_Plus_Cons:
  "remainders ((a, Plus) # its) (d # ds) =
     (if atom_matches a d then remainders ((a, Star) # its) ds else [])"
  by (subst remainders.simps(5)) simp

lemma remainders_Star:
  "x \<in> set (remainders ((a, Star) # its) s) \<longleftrightarrow>
   (\<exists>n \<le> length s. (\<forall>d \<in> set (take n s). atom_matches a d)
      \<and> x \<in> set (remainders its (drop n s)))"
proof (induction s)
  case Nil
  show ?case by (simp only: remainders_Star_Nil) (simp del: remainders.simps)
next
  case (Cons d ds)
  show ?case
  proof
    assume "x \<in> set (remainders ((a, Star) # its) (d # ds))"
    then consider (skip) "x \<in> set (remainders its (d # ds))"
      | (take) "atom_matches a d" "x \<in> set (remainders ((a, Star) # its) ds)"
      by (simp only: remainders_Star_Cons set_append Un_iff split: if_splits)
         (auto simp del: remainders.simps)
    then show "\<exists>n \<le> length (d # ds). (\<forall>d' \<in> set (take n (d # ds)). atom_matches a d')
        \<and> x \<in> set (remainders its (drop n (d # ds)))"
    proof cases
      case skip
      then show ?thesis by (intro exI [of _ 0]) (simp del: remainders.simps)
    next
      case take
      from take(2) [unfolded Cons.IH] obtain n where "n \<le> length ds"
        "\<forall>d' \<in> set (take n ds). atom_matches a d'"
        "x \<in> set (remainders its (drop n ds))"
        by blast
      with take(1) show ?thesis by (intro exI [of _ "Suc n"]) (simp del: remainders.simps)
    qed
  next
    assume "\<exists>n \<le> length (d # ds). (\<forall>d' \<in> set (take n (d # ds)). atom_matches a d')
        \<and> x \<in> set (remainders its (drop n (d # ds)))"
    then obtain n where n: "n \<le> length (d # ds)"
      "\<forall>d' \<in> set (take n (d # ds)). atom_matches a d'"
      "x \<in> set (remainders its (drop n (d # ds)))"
      by blast
    show "x \<in> set (remainders ((a, Star) # its) (d # ds))"
    proof (cases n)
      case 0
      with n(3) have "x \<in> set (remainders its (d # ds))" by (simp del: remainders.simps)
      then show ?thesis by (simp only: remainders_Star_Cons set_append Un_iff simp_thms)
    next
      case (Suc m)
      with n have m: "atom_matches a d" and "m \<le> length ds"
        "\<forall>d' \<in> set (take m ds). atom_matches a d'"
        "x \<in> set (remainders its (drop m ds))"
        by (simp_all del: remainders.simps)
      then have "x \<in> set (remainders ((a, Star) # its) ds)"
        unfolding Cons.IH by blast
      with m show ?thesis by (simp only: remainders_Star_Cons set_append Un_iff if_True simp_thms)
    qed
  qed
qed

lemma remainders_Plus:
  "x \<in> set (remainders ((a, Plus) # its) s) \<longleftrightarrow>
   (\<exists>n. 0 < n \<and> n \<le> length s \<and> (\<forall>d \<in> set (take n s). atom_matches a d)
      \<and> x \<in> set (remainders its (drop n s)))"
proof (cases s)
  case Nil
  then show ?thesis by (simp only: remainders_Plus_Nil) (simp del: remainders.simps)
next
  case (Cons d ds)
  show ?thesis
  proof
    assume "x \<in> set (remainders ((a, Plus) # its) s)"
    then have m: "atom_matches a d" and "x \<in> set (remainders ((a, Star) # its) ds)"
      unfolding Cons by (simp_all only: remainders_Plus_Cons split: if_splits)
        (simp_all del: remainders.simps)
    then obtain n where "n \<le> length ds" "\<forall>d' \<in> set (take n ds). atom_matches a d'"
      "x \<in> set (remainders its (drop n ds))"
      unfolding remainders_Star by blast
    with m show "\<exists>n. 0 < n \<and> n \<le> length s \<and> (\<forall>d \<in> set (take n s). atom_matches a d)
        \<and> x \<in> set (remainders its (drop n s))"
      unfolding Cons by (intro exI [of _ "Suc n"]) (simp del: remainders.simps)
  next
    assume "\<exists>n. 0 < n \<and> n \<le> length s \<and> (\<forall>d \<in> set (take n s). atom_matches a d)
        \<and> x \<in> set (remainders its (drop n s))"
    then obtain n where n: "0 < n" "n \<le> length s" "\<forall>d \<in> set (take n s). atom_matches a d"
      "x \<in> set (remainders its (drop n s))"
      by blast
    then obtain m where nm: "n = Suc m" by (cases n) (auto simp del: remainders.simps)
    with n Cons have m: "atom_matches a d" and "m \<le> length ds"
      "\<forall>d' \<in> set (take m ds). atom_matches a d'"
      "x \<in> set (remainders its (drop m ds))"
      by (simp_all del: remainders.simps)
    then have "x \<in> set (remainders ((a, Star) # its) ds)"
      unfolding remainders_Star by blast
    with m show "x \<in> set (remainders ((a, Plus) # its) s)"
      unfolding Cons by (simp only: remainders_Plus_Cons if_True)
  qed
qed

lemma not_slash: "atom_matches Not_slash = (\<lambda>d. d \<noteq> CHR ''/'')"
  by (simp add: fun_eq_iff)

lemma ex_position:
  "(\<exists>n \<in> set [1..<Suc k]. Q n) \<longleftrightarrow> (\<exists>n. 0 < n \<and> n \<le> k \<and> Q n)"
proof -
  have "n \<in> set [1..<Suc k] \<longleftrightarrow> 0 < n \<and> n \<le> k" for n
    by (simp del: upt_Suc) arith
  then show ?thesis by blast
qed

lemma template_matches_items:
  "[] \<in> set (remainders (template_items t) P) \<longleftrightarrow> template_matches t P"
proof (induction t arbitrary: P rule: template_items.induct)
  case 1
  show ?case by (auto simp: template_matches.simps)
next
  case (2 c cs)
  show ?case
  proof (cases "c = CHR ''{'' \<and> after_closing_brace cs \<noteq> None")
    case True
    then obtain rest where rest: "after_closing_brace cs = Some rest" and c: "c = CHR ''{''"
      by auto
    have items: "template_items (c # cs) = (Not_slash, Plus) # template_items rest"
      using rest c by simp
    have tm: "template_matches (c # cs) P
        = (\<exists>n. 0 < n \<and> n \<le> length P \<and> (\<forall>d \<in> set (take n P). d \<noteq> CHR ''/'')
               \<and> template_matches rest (drop n P))"
      unfolding template_matches.simps(2) [of c cs P]
      by (simp only: c rest refl if_True option.case list_ex_iff list_all_iff ex_position)
    show ?thesis
      unfolding items remainders_Plus tm
      by (simp only: "2.IH"(2) [OF c rest] not_slash)
  next
    case False
    then have items: "template_items (c # cs) = (Chr c, Once) # template_items cs"
      by (auto split: option.splits)
    have IH: "[] \<in> set (remainders (template_items cs) Q) \<longleftrightarrow> template_matches cs Q" for Q
    proof (cases "c = CHR ''{''")
      case True
      with False have "after_closing_brace cs = None" by simp
      from "2.IH"(1) [OF True this] show ?thesis .
    next
      case False
      from "2.IH"(3) [OF False] show ?thesis .
    qed
    from False have tm: "template_matches (c # cs) P
        = (P \<noteq> [] \<and> hd P = c \<and> template_matches cs (tl P))"
      by (auto simp: template_matches.simps(2) [of c cs P] split: option.splits)
    show ?thesis
      unfolding items tm by (cases P) (auto simp: IH simp del: remainders.simps(3-5))
  qed
qed

lemma template_accepts_matches:
  "template_ordinary t \<Longrightarrow> template_accepts P t = Inr (template_matches t P)"
  by (simp add: template_accepts_ordinary template_matches_items)

lemma templatePathMatches_ordinary:
  assumes "\<forall>op \<in> set (getOperations r). template_ordinary (path op)"
  shows "templatePathMatches r P
         = Inr (filter (\<lambda>op. template_matches (path op) P) (getOperations r))"
proof -
  have "filter_by (\<lambda>op. template_accepts P (path op)) xs
        = Inr (filter (\<lambda>op. template_matches (path op) P) xs)"
    if "\<forall>op \<in> set xs. template_ordinary (path op)" for xs
    using that by (induction xs) (simp_all add: template_accepts_matches)
  from this [OF assms] show ?thesis by (simp add: templatePathMatches_def)
qed

lemma distinct_key_eq:
  "distinct (map k xs) \<Longrightarrow> x \<in> set xs \<Longrightarrow> y \<in> set xs \<Longrightarrow> k x = k y \<Longrightarrow> x = y"
  by (simp add: distinct_map inj_on_def)

text \<open>
  The two phases agree where the exact phase decides a path without braces. Let the
  characters of every registered template be ordinary outside the placeholders, and let
  a registered template have no placeholder. For a request with that comparison path
  and the method of the descriptor, the descriptor is also the first one with the method
  in the order of the template phase.
\<close>

lemma exact_match_is_first_in_order:
  assumes wf: "distinct (map fst (or_empty (paths (api_definition r))))"
    and ord: "\<forall>op \<in> set (getOperations r). template_ordinary (path op)"
    and d: "d \<in> set (getOperations r)"
    and nb: "CHR ''{'' \<notin> set (path d)"
  shows "find (\<lambda>op. op_method op = op_method d)
           (orderBy_desc specificity
              (filter (\<lambda>op. template_accepts (path d) (path op) = Inr True) (getOperations r)))
         = Some d"
proof -
  let ?ms = "filter (\<lambda>op. template_accepts (path d) (path op) = Inr True) (getOperations r)"
  let ?found = "find (\<lambda>op. op_method op = op_method d) (orderBy_desc specificity ?ms)"
  have sd: "specificity d = length (path d)"
    by (simp add: specificity_def no_brace_literal [OF nb])
  from ord d have "template_accepts (path d) (path d) = Inr True"
    by (simp add: template_accepts_ordinary no_brace_items [OF nb] remainders_literal_self)
  with d have dm: "d \<in> set ?ms" by simp
  then have "?found \<noteq> None"
    by (auto simp: find_orderBy_desc_None)
  then obtain x where x: "?found = Some x" by auto
  from find_orderBy_desc_Some [OF x] dm
  have xm: "x \<in> set ?ms" and mx: "op_method x = op_method d"
    and le: "specificity d \<le> specificity x"
    by auto
  from xm have xr: "x \<in> set (getOperations r)"
    and acc: "template_accepts (path d) (path x) = Inr True"
    by simp_all
  from ord xr acc have rem: "[] \<in> set (remainders (template_items (path x)) (path d))"
    by (simp add: template_accepts_ordinary)
  from le sd have "length (path d) \<le> length (replace_placeholders [] (path x))"
    by (simp add: specificity_def)
  from accepted_literal_is_equal [OF rem this] have "path d = path x" .
  with mx have "operation_key x = operation_key d"
    by (simp add: operation_key_def)
  from distinct_key_eq [OF distinct_keys_getOperations [OF wf] xr d this] x
  show ?thesis by simp
qed

subsection \<open>The parameter parser\<close>

lemma parseBody_error:
  "parseBody lib b = Inl e \<longleftrightarrow>
   e = Unsupported
   \<and> (\<exists>v. b = Some v \<and> truthy lib v \<and> \<not> is_object v
          \<and> JSON_parse lib (toString lib v) = Inl Unsupported)"
  by (auto simp: parseBody_def split: option.splits if_splits sum.splits)

lemma parseBody_kept:
  "is_object v \<or> \<not> truthy lib v \<Longrightarrow> parseBody lib (Some v) = Inr (Some v)"
  by (auto simp: parseBody_def)

lemma parseBody_decoded:
  assumes "truthy lib v" and "\<not> is_object v"
  shows "parseBody lib (Some v) = Inl Unsupported \<or> parseBody lib (Some v) = Inr (Some (decoded lib v))"
  using assms by (auto simp: parseBody_def decoded_def split: sum.splits)

lemma parseRequest_requestBody:
  "parseRequest lib r st req operation = (st', Inr res) \<Longrightarrow>
   parseBody lib (req_body req) = Inr (requestBody res)"
  by (auto simp: parseRequest_def Let_def split: sum.splits prod.splits option.splits)

lemma parseRequest_returns:
  assumes "parseBody lib (req_body req) = Inr rb"
    and "initial_query st req = Inr (a, st1)"
    and "(case operation of None \<Rightarrow> (st1, Inr []) | Some op \<Rightarrow> with_operation lib r req op a st1)
         = (st2, Inr ps)"
  shows "\<exists>res. parseRequest lib r st req operation = (st2, Inr res) \<and> requestBody res = rb"
  using assms by (simp add: parseRequest_def Let_def)

text \<open>
  In the host of the examples, a value that counts as false and is not an object is
  what the decoding of its text gives, or its text is not JSON: the test for a body that
  is present leaves out no value that decoding would change.
\<close>

lemma falsy_decodes_to_itself:
  assumes "\<not> truthy no_libraries v" and "\<not> is_object v"
  shows "decoded no_libraries v = v"
proof (cases v)
  case (JBool b)
  with assms have "v = JBool False" by simp
  moreover have "decoded no_libraries (JBool False) = JBool False" by code_simp
  ultimately show ?thesis by simp
next
  case (JNum n)
  with assms have "v = JNum 0" by (simp add: no_libraries_def)
  moreover have "decoded no_libraries (JNum 0) = JNum 0" by code_simp
  ultimately show ?thesis by simp
next
  case (JStr s)
  with assms have "v = JStr []" by simp
  moreover have "decoded no_libraries (JStr []) = JStr []" by code_simp
  ultimately show ?thesis by simp
qed (use assms in simp_all)

lemma with_operation_object:
  assumes "req_query req = Query_object b"
  shows "with_operation lib r req op a st =
     (case normalizePath r (req_path (normalizeRequest req)) of
        Inl e \<Rightarrow> (st, Inl e)
      | Inr normalizedPath \<Rightarrow>
          (save st a (fst (second_pass (parameters op) (load st a))),
           case snd (second_pass (parameters op) (load st a)) of
             None \<Rightarrow> Inr (case bath_params lib (path op) normalizedPath of
                           None \<Rightarrow> [] | Some found \<Rightarrow> found)
           | Some e \<Rightarrow> Inl e))"
  using assms
  by (auto simp: with_operation_def Let_def is_query_object_def
      split: sum.splits option.splits prod.splits)


lemma parseRequest_object:
  assumes "req_query req = Query_object a"
    and "parseRequest lib r st req operation = (st', Inr res)"
  shows "query res = a"
    and "operation = None \<Longrightarrow> st' = st"
    and "operation = Some op \<Longrightarrow>
         st' = save st a (fst (second_pass (parameters op) (load st a)))"
  using assms
  by (auto simp: parseRequest_def Let_def initial_query_def with_operation_object
      split: sum.splits option.splits prod.splits)

lemma second_pass_nothing_to_split:
  "unsplit q ps = [] \<Longrightarrow> second_pass ps q = (q, None)"
  by (simp add: second_pass_def)

lemma save_load_same: "save st a (load st a) = st"
  by (simp add: save_def load_def list_update_beyond)


lemma map_of_put: "map_of (put q k v) = (map_of q)(k \<mapsto> v)"
  by (induction q) (auto simp: fun_eq_iff)

lemma split_each_done:
  "split_each todo q = (q', None) \<Longrightarrow>
   (\<forall>p \<in> set todo. \<exists>ss. map_of q' (name p) = Some (QArray ss))
   \<and> (\<forall>k. k \<notin> name ` set todo \<longrightarrow> map_of q' k = map_of q k)"
proof (induction todo arbitrary: q)
  case Nil
  then show ?case by simp
next
  case (Cons p todo)
  from Cons.prems obtain s where s: "map_of q (name p) = Some (QString s)"
    and rest: "split_each todo (put q (name p) (QArray (split_on (delimiter p) s))) = (q', None)"
    by (auto split: option.splits query_value.splits)
  note IH = Cons.IH [OF rest]
  show ?case
  proof (cases "name p \<in> name ` set todo")
    case True
    with IH show ?thesis by (auto simp: map_of_put)
  next
    case False
    with IH have "map_of q' (name p) = Some (QArray (split_on (delimiter p) s))"
      by (simp add: map_of_put)
    with IH show ?thesis by (auto simp: map_of_put)
  qed
qed

lemma second_pass_leaves_no_string:
  assumes "second_pass ps q = (q', None)"
    and "p \<in> set ps" and "explode p = Some False" and "located_in p = ''query''"
  shows "\<not> is_string (map_of q' (name p))"
proof (cases "p \<in> set (unsplit q ps)")
  case True
  with split_each_done [OF assms(1) [unfolded second_pass_def]] show ?thesis
    by (auto simp: is_string_def)
next
  case False
  with assms have no: "\<not> is_string (map_of q (name p))"
    by (simp add: unsplit_def)
  then have "name p \<notin> name ` set (unsplit q ps)"
    by (auto simp: unsplit_def)
  with split_each_done [OF assms(1) [unfolded second_pass_def]] no show ?thesis
    by simp
qed

lemma load_save: "load (save st a q) a = (if a < length st then q else [])"
  by (simp add: save_def load_def)

lemma with_operation_returns:
  assumes "with_operation lib r req op a st = (st', Inr ps)"
  shows "\<exists>q1 q2. second_pass (parameters op) q1 = (q2, None) \<and> st' = save st a q2"
  using assms
  by (auto simp: with_operation_def Let_def split: sum.splits option.splits prod.splits if_splits)

text \<open>
  Whenever \<open>parseRequest\<close> returns, no query parameter declared with \<^verbatim>\<open>explode: false\<close>
  holds a lone string.
\<close>

lemma parseRequest_leaves_no_lone_string:
  assumes "parseRequest lib r st req (Some op) = (st', Inr res)"
    and "p \<in> set (parameters op)" and "explode p = Some False" and "located_in p = ''query''"
  shows "\<not> is_string (map_of (load st' (query res)) (name p))"
proof -
  from assms(1) obtain a st1 ps where a: "query res = a"
    and w: "with_operation lib r req op a st1 = (st', Inr ps)"
    by (auto simp: parseRequest_def Let_def split: sum.splits prod.splits)
  from with_operation_returns [OF w] obtain q1 q2
    where s: "second_pass (parameters op) q1 = (q2, None)" and st': "st' = save st1 a q2"
    by blast
  from second_pass_leaves_no_string [OF s assms(2-4)]
  show ?thesis
    by (simp add: a st' load_save is_string_def)
qed

text \<open>Two arrays that are not exploded, one delimited by pipes and one by spaces.\<close>

lemma nonexploded_examples:
  "parseRequest no_libraries pets_router [] (raw_request ''/pets?a=1|2|3'' No_query None)
     (Some (operation_with [array_parameter ''a'' (Some ''pipeDelimited'')]))
   = ([[(''a'', QArray [''1'', ''2'', ''3''])]], Inr (parsed_pets None None))"
  "parseRequest no_libraries pets_router [] (raw_request ''/pets?b=1%202%203'' No_query None)
     (Some (operation_with [array_parameter ''b'' (Some ''spaceDelimited'')]))
   = ([[(''b'', QArray [''1'', ''2'', ''3''])]], Inr (parsed_pets None None))"
  by code_simp+

section \<open>Path matcher: the claims\<close>

text \<open>
  Claim C1. For every contract document and every registered (path template, method)
  pair: a request that passes the root check, whose normalised and root-stripped path is
  literally the template and whose normalised method is the method, is resolved by
  \<open>matchOperation\<close> to that descriptor, and it is the exact phase that finds it. No
  condition is put on the other templates, so this holds also when one of them accepts
  the same path through a placeholder. The document is a well-formed object: no path
  occurs twice among its keys.
\<close>

theorem exact_phase_takes_priority:
  assumes "distinct (map fst (or_empty (paths (api_definition r))))"
    and "d \<in> set (getOperations r)"
    and "prefix (apiRoot r) (req_path (normalizeRequest req))"
    and "normalizePath r (req_path (normalizeRequest req)) = Inr (path d)"
    and "req_method (normalizeRequest req) = op_method d"
  shows "exactMatch r (path d) (op_method d) = Some d
         \<and> matchOperation r req strict = Inr (Some d)"
  using assms exactMatch_registered [OF assms(1,2)]
  by (simp add: matchOperation_def Let_def resolve_def)

theorem exact_phase_takes_priority_witness:
  "distinct (map fst (or_empty (paths (api_definition pets_router))))
   \<and> registered ''/pets/mine'' ''get'' \<in> set (getOperations pets_router)
   \<and> prefix (apiRoot pets_router) (req_path (normalizeRequest (simple_request ''GET'' ''/pets/mine/'')))
   \<and> template_accepts ''/pets/mine'' ''/pets/{id}'' = Inr True
   \<and> exactMatch pets_router ''/pets/mine'' ''get'' = Some (registered ''/pets/mine'' ''get'')
   \<and> matchOperation pets_router (simple_request ''GET'' ''/pets/mine/'') True
       = Inr (Some (registered ''/pets/mine'' ''get''))"
proof -
  let ?req = "simple_request ''GET'' ''/pets/mine/''"
  let ?d = "registered ''/pets/mine'' ''get''"
  have h1: "distinct (map fst (or_empty (paths (api_definition pets_router))))"
    by code_simp
  have h2: "?d \<in> set (getOperations pets_router)"
    by code_simp
  have h3: "prefix (apiRoot pets_router) (req_path (normalizeRequest ?req))"
    by code_simp
  have h4: "normalizePath pets_router (req_path (normalizeRequest ?req)) = Inr (path ?d)"
    by code_simp
  have h5: "req_method (normalizeRequest ?req) = op_method ?d"
    by code_simp
  have h6: "template_accepts ''/pets/mine'' ''/pets/{id}'' = Inr True"
    by code_simp
  have p: "path ?d = ''/pets/mine''" and m: "op_method ?d = ''get''"
    by (simp_all add: registered_def)
  from exact_phase_takes_priority [OF h1 h2 h3 h4 h5, of True] h1 h2 h3 h6
  show ?thesis by (simp only: p m simp_thms)
qed

text \<open>
  Claim C2, as stated, at a document with the templates \<^verbatim>\<open>/pets/{category}\<close> and
  \<^verbatim>\<open>/pets/{id}\<close>, in this order, and the request \<^verbatim>\<open>GET /pets/{id}\<close>, whose path has the
  braces in it. Both templates match the comparison path, both have the specificity 6,
  and the first in the order is \<^verbatim>\<open>/pets/{category}\<close>; \<open>matchOperation\<close> returns
  \<^verbatim>\<open>/pets/{id}\<close>, which the exact phase finds before the templates are ordered.
\<close>

theorem exact_phase_overrides_order_counterexample:
  "templatePathMatches category_router ''/pets/{id}''
     = Inr [registered ''/pets/{category}'' ''get'', registered ''/pets/{id}'' ''get'']
   \<and> specificity (registered ''/pets/{category}'' ''get'') = 6
   \<and> specificity (registered ''/pets/{id}'' ''get'') = 6
   \<and> find (\<lambda>op. op_method op = ''get'')
        (orderBy_desc specificity
           [registered ''/pets/{category}'' ''get'', registered ''/pets/{id}'' ''get''])
     = Some (registered ''/pets/{category}'' ''get'')
   \<and> matchOperation category_router (simple_request ''GET'' ''/pets/{id}'') True
     = Inr (Some (registered ''/pets/{id}'' ''get''))
   \<and> registered ''/pets/{id}'' ''get'' \<noteq> registered ''/pets/{category}'' ''get''"
  by code_simp

text \<open>
  Claim C2, amended. Let the request pass the root check, and let \<open>P\<close> be its comparison
  path and \<open>m\<close> its normalised method. If a descriptor has the path \<open>P\<close> itself and the
  method \<open>m\<close>, \<open>matchOperation\<close> returns it (the exact phase). Otherwise
  \<open>matchOperation\<close> collects the descriptors whose template matches \<open>P\<close>, or ends with the
  error that building a pattern raised, and returns the first one with the method \<open>m\<close>
  in descending order of specificity; the one it returns has a specificity no
  smaller than any other collected descriptor with the method, and is the first in
  registry order among those of its specificity. The specificity is the length of the
  template without its placeholders. Where the characters of the registered templates
  are ordinary outside the placeholders, a template matches \<open>P\<close> exactly if \<open>P\<close> is the
  template with one or more characters other than the slash in the place of each
  placeholder. The two phases differ only on a path with a brace: on such documents
  with distinct path keys, and for \<open>P\<close> without a brace, the descriptor of the exact phase
  is also the first with the method in the order. With \<^verbatim>\<open>/pets/{id}\<close> and
  \<^verbatim>\<open>/pets/{id}/photos\<close> registered, \<^verbatim>\<open>/pets/{id}\<close> does not match \<^verbatim>\<open>/pets/1/photos\<close>, and
  \<^verbatim>\<open>GET /pets/1/photos\<close> resolves to the second.
\<close>

theorem exact_match_else_most_specific:
  assumes "prefix (apiRoot r) (req_path (normalizeRequest req))"
    and "normalizePath r (req_path (normalizeRequest req)) = Inr P"
    and "req_method (normalizeRequest req) = m"
  shows "(\<forall>d. exactMatch r P m = Some d \<longrightarrow>
            matchOperation r req strict = Inr (Some d)
          \<and> d \<in> set (getOperations r) \<and> path d = P \<and> op_method d = m)
    \<and> (exactMatch r P m = None \<longrightarrow>
          matchOperation r req strict =
            (case templatePathMatches r P of
               Inl e \<Rightarrow> Inl e
             | Inr ms \<Rightarrow>
                 (case find (\<lambda>op. op_method op = m)
                         (orderBy_desc (\<lambda>op. length (replace_placeholders [] (path op))) ms) of
                    Some d \<Rightarrow> Inr (Some d)
                  | None \<Rightarrow> fail strict (if ms = [] then not_found else method_not_allowed))))
    \<and> ((\<forall>op \<in> set (getOperations r). template_ordinary (path op)) \<longrightarrow>
          templatePathMatches r P
            = Inr (filter (\<lambda>op. template_matches (path op) P) (getOperations r)))
    \<and> (\<forall>ms op. templatePathMatches r P = Inr ms \<and> op \<in> set (getOperations r)
               \<and> template_ordinary (path op) \<longrightarrow>
            (op \<in> set ms \<longleftrightarrow> template_matches (path op) P))
    \<and> (\<forall>ms d. exactMatch r P m = None \<and> templatePathMatches r P = Inr ms
               \<and> matchOperation r req strict = Inr (Some d) \<longrightarrow>
            d \<in> set ms \<and> op_method d = m
          \<and> (\<forall>d' \<in> set ms. op_method d' = m \<longrightarrow> specificity d' \<le> specificity d)
          \<and> find (\<lambda>d'. op_method d' = m \<and> specificity d' = specificity d) ms = Some d)
    \<and> (\<forall>d. exactMatch r P m = Some d
            \<and> distinct (map fst (or_empty (paths (api_definition r))))
            \<and> (\<forall>op \<in> set (getOperations r). template_ordinary (path op))
            \<and> CHR ''{'' \<notin> set P \<longrightarrow>
            find (\<lambda>op. op_method op = m)
              (orderBy_desc (\<lambda>op. length (replace_placeholders [] (path op)))
                 (filter (\<lambda>op. template_matches (path op) P) (getOperations r)))
            = Some d)
    \<and> template_accepts ''/pets/1/photos'' ''/pets/{id}'' = Inr False
    \<and> template_accepts ''/pets/1/photos'' ''/pets/{id}/photos'' = Inr True
    \<and> templatePathMatches pets_router ''/pets/1/photos''
        = Inr [registered ''/pets/{id}/photos'' ''get'']
    \<and> matchOperation pets_router (simple_request ''GET'' ''/pets/1/photos'') strict
        = Inr (Some (registered ''/pets/{id}/photos'' ''get''))"
proof -
  let ?ord = "orderBy_desc (\<lambda>op. length (replace_placeholders [] (path op)))"
  have spec: "(\<lambda>op. length (replace_placeholders [] (path op))) = specificity"
    by (simp add: specificity_def fun_eq_iff)
  have mo: "matchOperation r req strict = resolve r P m strict"
    using assms by (simp add: matchOperation_def Let_def)
  have 1: "matchOperation r req strict = Inr (Some d)
          \<and> d \<in> set (getOperations r) \<and> path d = P \<and> op_method d = m"
    if "exactMatch r P m = Some d" for d
  proof -
    from that have "d \<in> set (exactPathMatches r P)" and "op_method d = m"
      unfolding exactMatch_def by (auto dest: find_Some_iff [THEN iffD1] simp: in_set_conv_nth)
    with that show ?thesis
      by (simp add: mo resolve_def exactPathMatches_def)
  qed
  have 2: "matchOperation r req strict =
            (case templatePathMatches r P of
               Inl e \<Rightarrow> Inl e
             | Inr ms \<Rightarrow>
                 (case find (\<lambda>op. op_method op = m) (?ord ms) of
                    Some d \<Rightarrow> Inr (Some d)
                  | None \<Rightarrow> fail strict (if ms = [] then not_found else method_not_allowed)))"
    if "exactMatch r P m = None"
    using that
    by (simp add: mo resolve_def spec orderBy_desc_def split: sum.splits option.splits)
  have 3: "templatePathMatches r P
            = Inr (filter (\<lambda>op. template_matches (path op) P) (getOperations r))"
    if "\<forall>op \<in> set (getOperations r). template_ordinary (path op)"
    using that by (rule templatePathMatches_ordinary)
  have pointwise: "op \<in> set ms \<longleftrightarrow> template_matches (path op) P"
    if "templatePathMatches r P = Inr ms" and "op \<in> set (getOperations r)"
      and "template_ordinary (path op)" for ms op
  proof -
    from that(1) have "ms = filter (\<lambda>op. template_accepts P (path op) = Inr True) (getOperations r)"
      unfolding templatePathMatches_def by (rule filter_by_Inr)
    with that(2,3) show ?thesis by (simp add: template_accepts_matches)
  qed
  have 4: "d \<in> set ms \<and> op_method d = m
          \<and> (\<forall>d' \<in> set ms. op_method d' = m \<longrightarrow> specificity d' \<le> specificity d)
          \<and> find (\<lambda>d'. op_method d' = m \<and> specificity d' = specificity d) ms = Some d"
    if "exactMatch r P m = None" and "templatePathMatches r P = Inr ms"
      and "matchOperation r req strict = Inr (Some d)" for ms d
  proof -
    from that 2 have "find (\<lambda>op. op_method op = m) (orderBy_desc specificity ms) = Some d"
      by (auto simp: spec fail_def split: option.splits if_splits)
    from find_orderBy_desc_Some [OF this] show ?thesis by simp
  qed
  have 5: "find (\<lambda>op. op_method op = m)
              (?ord (filter (\<lambda>op. template_matches (path op) P) (getOperations r)))
            = Some d"
    if e: "exactMatch r P m = Some d"
      and wf: "distinct (map fst (or_empty (paths (api_definition r))))"
      and ord: "\<forall>op \<in> set (getOperations r). template_ordinary (path op)"
      and nb: "CHR ''{'' \<notin> set P" for d
  proof -
    from 1 [OF e] have d: "d \<in> set (getOperations r)" and p: "path d = P" and md: "op_method d = m"
      by simp_all
    have f: "filter (\<lambda>op. template_accepts P (path op) = Inr True) (getOperations r)
          = filter (\<lambda>op. template_matches (path op) P) (getOperations r)"
      using ord by (intro filter_cong) (simp_all add: template_accepts_matches)
    from nb have "CHR ''{'' \<notin> set (path d)" by (simp add: p)
    from exact_match_is_first_in_order [OF wf ord d this]
    show ?thesis by (simp add: p md f spec)
  qed
  have 6: "templatePathMatches pets_router ''/pets/1/photos''
           = Inr [registered ''/pets/{id}/photos'' ''get'']"
    by code_simp
  have 7: "matchOperation pets_router (simple_request ''GET'' ''/pets/1/photos'') strict
           = Inr (Some (registered ''/pets/{id}/photos'' ''get''))"
    by (cases strict; code_simp)
  have 8: "template_accepts ''/pets/1/photos'' ''/pets/{id}'' = Inr False"
    "template_accepts ''/pets/1/photos'' ''/pets/{id}/photos'' = Inr True"
    by code_simp+
  from 1 2 3 pointwise 4 5 6 7 8 show ?thesis by blast
qed

theorem exact_match_else_most_specific_witness:
  "prefix (apiRoot overlap_router) (req_path (normalizeRequest (simple_request ''GET'' ''/pets/7'')))
   \<and> exactMatch overlap_router ''/pets/7'' ''get'' = None
   \<and> list_all (\<lambda>op. template_ordinary (path op)) (getOperations overlap_router)
   \<and> templatePathMatches overlap_router ''/pets/7''
       = Inr [registered ''/{kind}/{id}'' ''get'', registered ''/pets/{id}'' ''get'']
   \<and> template_matches ''/{kind}/{id}'' ''/pets/7''
   \<and> template_matches ''/pets/{id}'' ''/pets/7''
   \<and> specificity (registered ''/{kind}/{id}'' ''get'') = 2
   \<and> specificity (registered ''/pets/{id}'' ''get'') = 6
   \<and> matchOperation overlap_router (simple_request ''GET'' ''/pets/7'') True
       = Inr (Some (registered ''/pets/{id}'' ''get''))
   \<and> exactMatch pets_router ''/pets/mine'' ''get'' = Some (registered ''/pets/mine'' ''get'')
   \<and> filter (\<lambda>op. template_matches (path op) ''/pets/mine'') (getOperations pets_router)
       = [registered ''/pets/{id}'' ''get'', registered ''/pets/mine'' ''get'']
   \<and> matchOperation pets_router (simple_request ''GET'' ''/pets/mine'') True
       = Inr (Some (registered ''/pets/mine'' ''get''))
   \<and> find (\<lambda>op. op_method op = ''get'')
        (orderBy_desc (\<lambda>op. length (replace_placeholders [] (path op)))
           [registered ''/pets/{id}'' ''get'', registered ''/pets/mine'' ''get''])
       = Some (registered ''/pets/mine'' ''get'')"
proof -
  let ?req = "simple_request ''GET'' ''/pets/7''"
  let ?ms = "[registered ''/{kind}/{id}'' ''get'', registered ''/pets/{id}'' ''get'']"
  let ?req' = "simple_request ''GET'' ''/pets/mine''"
  let ?ms' = "[registered ''/pets/{id}'' ''get'', registered ''/pets/mine'' ''get'']"
  let ?len = "\<lambda>op. length (replace_placeholders [] (path op))"
  have h1: "prefix (apiRoot overlap_router) (req_path (normalizeRequest ?req))"
    by code_simp
  have h2: "normalizePath overlap_router (req_path (normalizeRequest ?req)) = Inr ''/pets/7''"
    by code_simp
  have h3: "req_method (normalizeRequest ?req) = ''get''"
    by code_simp
  have e: "exactMatch overlap_router ''/pets/7'' ''get'' = None"
    by code_simp
  have o: "\<forall>op \<in> set (getOperations overlap_router). template_ordinary (path op)"
    by code_simp
  have f: "filter (\<lambda>op. template_matches (path op) ''/pets/7'') (getOperations overlap_router) = ?ms"
    by code_simp
  have t: "template_matches ''/{kind}/{id}'' ''/pets/7''" "template_matches ''/pets/{id}'' ''/pets/7''"
    by code_simp+
  have s1: "specificity (registered ''/{kind}/{id}'' ''get'') = 2"
    by code_simp
  have s2: "specificity (registered ''/pets/{id}'' ''get'') = 6"
    by code_simp
  have g: "find (\<lambda>op. op_method op = ''get'') (orderBy_desc ?len ?ms)
           = Some (registered ''/pets/{id}'' ''get'')"
    by code_simp
  note A = exact_match_else_most_specific [OF h1 h2 h3, of True]
  from A o have ms: "templatePathMatches overlap_router ''/pets/7'' = Inr ?ms"
    unfolding f by blast
  from A e have "matchOperation overlap_router ?req True =
      (case templatePathMatches overlap_router ''/pets/7'' of
         Inl e \<Rightarrow> Inl e
       | Inr ms \<Rightarrow>
           (case find (\<lambda>op. op_method op = ''get'') (orderBy_desc ?len ms) of
              Some d \<Rightarrow> Inr (Some d)
            | None \<Rightarrow> fail True (if ms = [] then not_found else method_not_allowed)))"
    by blast
  then have m: "matchOperation overlap_router ?req True
      = Inr (Some (registered ''/pets/{id}'' ''get''))"
    by (simp only: ms g sum.case option.case)
  have k1: "prefix (apiRoot pets_router) (req_path (normalizeRequest ?req'))"
    by code_simp
  have k2: "normalizePath pets_router (req_path (normalizeRequest ?req')) = Inr ''/pets/mine''"
    by code_simp
  have k3: "req_method (normalizeRequest ?req') = ''get''"
    by code_simp
  have e': "exactMatch pets_router ''/pets/mine'' ''get'' = Some (registered ''/pets/mine'' ''get'')"
    by code_simp
  have wf: "distinct (map fst (or_empty (paths (api_definition pets_router))))"
    by code_simp
  have o': "\<forall>op \<in> set (getOperations pets_router). template_ordinary (path op)"
    by code_simp
  have nb: "CHR ''{'' \<notin> set ''/pets/mine''"
    by code_simp
  have f': "filter (\<lambda>op. template_matches (path op) ''/pets/mine'') (getOperations pets_router) = ?ms'"
    by code_simp
  note B = exact_match_else_most_specific [OF k1 k2 k3, of True]
  from B e' have m': "matchOperation pets_router ?req' True
      = Inr (Some (registered ''/pets/mine'' ''get''))"
    by blast
  from B e' wf o' nb have g': "find (\<lambda>op. op_method op = ''get'') (orderBy_desc ?len ?ms')
      = Some (registered ''/pets/mine'' ''get'')"
    unfolding f' by blast
  from o have o2: "list_all (\<lambda>op. template_ordinary (path op)) (getOperations overlap_router)"
    by (simp add: list_all_iff)
  from h1 e o2 ms t s1 s2 m e' f' m' g' show ?thesis by blast
qed

text \<open>
  Claim C3, at a document with the template \<^verbatim>\<open>/c++\<close> and the request \<^verbatim>\<open>GET /pets\<close>.
  The text of the template goes into the pattern as it is; the host rejects the pattern
  \<^verbatim>\<open>^/c++$\<close>, and \<open>matchOperation\<close> ends with that error, which is neither of the two
  messages, in non-strict mode as in strict mode.
\<close>

theorem unescaped_template_raises:
  "matchOperation repeat_router (simple_request ''GET'' ''/pets'') False
     = Inl (SyntaxError ''Nothing to repeat'')
   \<and> matchOperation repeat_router (simple_request ''GET'' ''/pets'') True
     = Inl (SyntaxError ''Nothing to repeat'')"
  by code_simp

text \<open>
  The failures of \<open>matchOperation\<close> on the documents whose patterns the host accepts.
  Let the patterns built from the root and from the registered templates be accepted by
  the host. In strict mode \<open>matchOperation\<close> fails in two ways only,
  with the two fixed messages: with the 404 message when the normalised path does not
  start with the root, or when no descriptor's path is the comparison path and no
  descriptor's template accepts it; with the 405 message when some template accepts the
  comparison path but no descriptor whose path is that path or whose template accepts it
  has the request's method. In non-strict mode it never fails: it returns the absent
  result wherever strict mode fails, whichever the failure, and the strict result
  otherwise.
\<close>

theorem strict_failures_and_lenient_absence:
  assumes "normalizePath r (req_path (normalizeRequest req)) = Inr P"
    and "\<forall>op \<in> set (getOperations r). compiles (pathPattern (path op))"
  shows "(\<forall>e. matchOperation r req True = Inl e \<longrightarrow>
            e = Error ''404-notFound: no route matches request''
            \<or> e = Error ''405-methodNotAllowed: this method is not registered for the route'')
    \<and> (\<not> prefix (apiRoot r) (req_path (normalizeRequest req))
         \<or> (\<forall>op \<in> set (getOperations r).
               path op \<noteq> P \<and> template_accepts P (path op) \<noteq> Inr True)
        \<longrightarrow> matchOperation r req True = Inl (Error ''404-notFound: no route matches request''))
    \<and> (prefix (apiRoot r) (req_path (normalizeRequest req))
         \<and> (\<exists>op \<in> set (getOperations r). template_accepts P (path op) = Inr True)
         \<and> (\<forall>op \<in> set (getOperations r).
               path op = P \<or> template_accepts P (path op) = Inr True
               \<longrightarrow> op_method op \<noteq> req_method (normalizeRequest req))
        \<longrightarrow> matchOperation r req True
            = Inl (Error ''405-methodNotAllowed: this method is not registered for the route''))
    \<and> matchOperation r req False =
        (case matchOperation r req True of Inl e \<Rightarrow> Inr None | Inr found \<Rightarrow> Inr found)"
proof -
  let ?p = "req_path (normalizeRequest req)"
  let ?m = "req_method (normalizeRequest req)"
  let ?ms = "filter (\<lambda>op. template_accepts P (path op) = Inr True) (getOperations r)"
  let ?found = "find (\<lambda>op. op_method op = ?m) (orderBy_desc specificity ?ms)"
  have tm: "templatePathMatches r P = Inr ?ms"
    by (rule templatePathMatches_supported [OF assms(2)])
  have res: "resolve r P ?m strict =
             (case exactMatch r P ?m of
                Some d \<Rightarrow> Inr (Some d)
              | None \<Rightarrow>
                  if ?ms = [] then fail strict not_found
                  else (case ?found of None \<Rightarrow> fail strict method_not_allowed
                        | Some d \<Rightarrow> Inr (Some d)))" for strict
    by (simp add: resolve_def tm split: option.splits)
  have mo: "matchOperation r req strict =
            (if \<not> prefix (apiRoot r) ?p then fail strict not_found
             else resolve r P ?m strict)" for strict
    by (simp add: matchOperation_def Let_def assms(1))
  have 1: "e = not_found \<or> e = method_not_allowed" if "matchOperation r req True = Inl e" for e
    using that
    by (auto simp: mo res fail_def split: if_splits option.splits)
  have 2: "matchOperation r req True = Inl not_found"
    if "\<not> prefix (apiRoot r) ?p
        \<or> (\<forall>op \<in> set (getOperations r).
              path op \<noteq> P \<and> template_accepts P (path op) \<noteq> Inr True)"
  proof (cases "prefix (apiRoot r) ?p")
    case False
    then show ?thesis by (simp add: mo fail_def)
  next
    case True
    with that have none: "\<forall>op \<in> set (getOperations r).
        path op \<noteq> P \<and> template_accepts P (path op) \<noteq> Inr True"
      by simp
    then have "exactMatch r P ?m = None"
      by (simp add: exactMatch_None)
    moreover from none have "?ms = []"
      by (simp add: filter_empty_conv)
    ultimately show ?thesis
      using True by (simp add: mo res fail_def)
  qed
  have 3: "matchOperation r req True = Inl method_not_allowed"
    if root: "prefix (apiRoot r) ?p"
      and some: "\<exists>op \<in> set (getOperations r). template_accepts P (path op) = Inr True"
      and none: "\<forall>op \<in> set (getOperations r).
          path op = P \<or> template_accepts P (path op) = Inr True \<longrightarrow> op_method op \<noteq> ?m"
  proof -
    from none have "exactMatch r P ?m = None"
      by (simp add: exactMatch_None)
    moreover from some have "?ms \<noteq> []"
      by (simp add: filter_empty_conv)
    moreover from none have "?found = None"
      by (simp add: find_orderBy_desc_None)
    ultimately show ?thesis
      using root by (simp add: mo res fail_def)
  qed
  have 4: "matchOperation r req False =
           (case matchOperation r req True of Inl e \<Rightarrow> Inr None | Inr found \<Rightarrow> Inr found)"
    by (simp add: mo res fail_def split: option.splits)
  from 1 2 3 4 show ?thesis
    unfolding not_found_def method_not_allowed_def by blast
qed

theorem strict_failures_and_lenient_absence_witness:
  "matchOperation pets_router (simple_request ''GET'' ''/owners/1'') True
     = Inl (Error ''404-notFound: no route matches request'')
   \<and> matchOperation pets_router (simple_request ''GET'' ''/owners/1'') False = Inr None
   \<and> matchOperation rooted_router (simple_request ''GET'' ''/ary/pets'') True
     = Inl (Error ''404-notFound: no route matches request'')
   \<and> matchOperation rooted_router (simple_request ''GET'' ''/ary/pets'') False = Inr None
   \<and> matchOperation pets_router (simple_request ''DELETE'' ''/pets/1'') True
     = Inl (Error ''405-methodNotAllowed: this method is not registered for the route'')
   \<and> matchOperation pets_router (simple_request ''DELETE'' ''/pets/1'') False = Inr None"
proof -
  let ?a = "simple_request ''GET'' ''/owners/1''"
  let ?b = "simple_request ''GET'' ''/ary/pets''"
  let ?c = "simple_request ''DELETE'' ''/pets/1''"
  have sup: "\<forall>op \<in> set (getOperations pets_router). compiles (pathPattern (path op))"
    by code_simp
  have sup': "\<forall>op \<in> set (getOperations rooted_router). compiles (pathPattern (path op))"
    by code_simp
  have a1: "normalizePath pets_router (req_path (normalizeRequest ?a)) = Inr ''/owners/1''"
    by code_simp
  have a2: "\<forall>op \<in> set (getOperations pets_router).
              path op \<noteq> ''/owners/1'' \<and> template_accepts ''/owners/1'' (path op) \<noteq> Inr True"
    by code_simp
  have b1: "normalizePath rooted_router (req_path (normalizeRequest ?b)) = Inr ''/ary/pets''"
    by code_simp
  have b2: "\<not> prefix (apiRoot rooted_router) (req_path (normalizeRequest ?b))"
    by code_simp
  have c1: "normalizePath pets_router (req_path (normalizeRequest ?c)) = Inr ''/pets/1''"
    by code_simp
  have c2: "prefix (apiRoot pets_router) (req_path (normalizeRequest ?c))"
    by code_simp
  have c3: "\<exists>op \<in> set (getOperations pets_router). template_accepts ''/pets/1'' (path op) = Inr True"
    by code_simp
  have c4: "\<forall>op \<in> set (getOperations pets_router).
              path op = ''/pets/1'' \<or> template_accepts ''/pets/1'' (path op) = Inr True
              \<longrightarrow> op_method op \<noteq> req_method (normalizeRequest ?c)"
    by code_simp
  note A = strict_failures_and_lenient_absence [OF a1 sup]
  note B = strict_failures_and_lenient_absence [OF b1 sup']
  note C = strict_failures_and_lenient_absence [OF c1 sup]
  from A a2 have A1: "matchOperation pets_router ?a True
      = Inl (Error ''404-notFound: no route matches request'')"
    by blast
  from B b2 have B1: "matchOperation rooted_router ?b True
      = Inl (Error ''404-notFound: no route matches request'')"
    by blast
  from C c2 c3 c4 have C1: "matchOperation pets_router ?c True
      = Inl (Error ''405-methodNotAllowed: this method is not registered for the route'')"
    by blast
  from A A1 have A2: "matchOperation pets_router ?a False = Inr None" by simp
  from B B1 have B2: "matchOperation rooted_router ?b False = Inr None" by simp
  from C C1 have C2: "matchOperation pets_router ?c False = Inr None" by simp
  from A1 A2 B1 B2 C1 C2 show ?thesis by blast
qed

text \<open>
  Claim C10, at the root \<^verbatim>\<open>/v1+\<close> and the request \<^verbatim>\<open>GET /v1+/pets\<close>. The path passes the
  root check, a comparison of strings. \<open>normalizePath\<close> reads the root as a pattern, in
  which the plus sign repeats the digit before it: it removes \<^verbatim>\<open>/v1\<close> only, so the
  comparison path is \<^verbatim>\<open>/+/pets\<close> and the operation registered under \<^verbatim>\<open>/pets\<close> is not
  found.
\<close>

theorem unescaped_root_is_not_removed:
  "prefix (apiRoot versioned_router) ''/v1+/pets''
   \<and> normalizePath versioned_router ''/v1+/pets'' = Inr ''/+/pets''
   \<and> strip_root (apiRoot versioned_router) ''/v1+/pets'' = ''/pets''
   \<and> matchOperation versioned_router (simple_request ''GET'' ''/v1+/pets'') True
       = Inl (Error ''404-notFound: no route matches request'')"
  by code_simp

text \<open>
  The root check and \<open>normalizePath\<close> on the roots that are their own pattern. Let
  every character of the root match itself and nothing else
  when read as a pattern (a character without meaning in a regular expression, or the
  dot, which the root check has already compared literally). The root check of
  \<open>matchOperation\<close> accepts every request whose normalised path has the root as a plain
  string prefix, whatever character follows the prefix; \<open>normalizePath\<close> then removes
  the prefix and at most one slash after it and puts a single slash in front, and the
  phases run on that comparison path. With the root \<^verbatim>\<open>/api\<close>, the path
  \<^verbatim>\<open>/apiary/pets\<close> passes the check, is compared as \<^verbatim>\<open>/ary/pets\<close>, and resolves to an
  operation registered under that template.
\<close>

theorem root_is_a_plain_prefix:
  assumes "\<forall>c \<in> set (apiRoot r). self_matching c"
    and "prefix (apiRoot r) (req_path (normalizeRequest req))"
  shows "normalizePath r (req_path (normalizeRequest req))
           = Inr (strip_root (apiRoot r) (req_path (normalizeRequest req)))
    \<and> matchOperation r req strict
           = resolve r (strip_root (apiRoot r) (req_path (normalizeRequest req)))
               (req_method (normalizeRequest req)) strict
    \<and> normalizePath rooted_router ''/apiary/pets'' = Inr ''/ary/pets''
    \<and> matchOperation rooted_router (simple_request ''GET'' ''/apiary/pets'') strict
           = Inr (Some (registered ''/ary/pets'' ''get''))"
proof -
  note np = normalizePath_self_matching_root [OF assms]
  have "matchOperation r req strict
        = resolve r (strip_root (apiRoot r) (req_path (normalizeRequest req)))
            (req_method (normalizeRequest req)) strict"
    using assms(2) by (simp add: matchOperation_def Let_def np)
  moreover have "normalizePath rooted_router ''/apiary/pets'' = Inr ''/ary/pets''"
    by code_simp
  moreover have "matchOperation rooted_router (simple_request ''GET'' ''/apiary/pets'') strict
                 = Inr (Some (registered ''/ary/pets'' ''get''))"
    by (cases strict; code_simp)
  ultimately show ?thesis using np by simp
qed

theorem root_is_a_plain_prefix_witness:
  "list_all self_matching (apiRoot rooted_router)
   \<and> apiRoot rooted_router = ''/api''
   \<and> req_path (normalizeRequest (simple_request ''GET'' ''/apiary/pets/'')) = ''/apiary/pets''
   \<and> prefix ''/api'' ''/apiary/pets''
   \<and> strip_root ''/api'' ''/apiary/pets'' = ''/ary/pets''
   \<and> strip_root ''/api'' ''/api/pets'' = ''/pets''
   \<and> strip_root ''/api'' ''/api//pets'' = ''//pets''
   \<and> matchOperation rooted_router (simple_request ''GET'' ''/apiary/pets/'') True
       = resolve rooted_router ''/ary/pets'' ''get'' True"
proof -
  let ?req = "simple_request ''GET'' ''/apiary/pets/''"
  have h1: "\<forall>c \<in> set (apiRoot rooted_router). self_matching c"
    by code_simp
  have h2: "prefix (apiRoot rooted_router) (req_path (normalizeRequest ?req))"
    by code_simp
  have e1: "apiRoot rooted_router = ''/api''" by code_simp
  have e2: "req_path (normalizeRequest ?req) = ''/apiary/pets''" by code_simp
  have e3: "req_method (normalizeRequest ?req) = ''get''" by code_simp
  have e4: "strip_root ''/api'' ''/apiary/pets'' = ''/ary/pets''" by code_simp
  have e5: "strip_root ''/api'' ''/api/pets'' = ''/pets''" by code_simp
  have e6: "strip_root ''/api'' ''/api//pets'' = ''//pets''" by code_simp
  have e7: "prefix ''/api'' ''/apiary/pets''" by code_simp
  from root_is_a_plain_prefix [OF h1 h2, of True]
  have "matchOperation rooted_router ?req True = resolve rooted_router ''/ary/pets'' ''get'' True"
    by (simp only: e1 e2 e3 e4)
  with h1 e1 e2 e4 e5 e6 e7 show ?thesis by (simp add: list_all_iff)
qed

section \<open>Operation registry: the claims\<close>

text \<open>
  Claim C7, as stated, at a path item whose parameter \<^verbatim>\<open>limit\<close> (not exploded) is
  declared again by the operation (exploded). The descriptor carries both declarations.
  \<open>parseRequest\<close> splits the value \<^verbatim>\<open>1,2\<close> as the declaration of the path item says; with
  the declaration of the operation alone the value stays a string. So the entry of the
  operation does not take precedence for the second pass of \<open>parseRequest\<close>.
\<close>

theorem shared_parameter_still_applies_counterexample:
  "parameters (hd (getOperations override_router))
     = [\<lparr>name = ''limit'', located_in = ''query'', style = Some ''form'', explode = Some True\<rparr>,
        array_parameter ''limit'' (Some ''form'')]
   \<and> fst (parseRequest no_libraries override_router []
            (raw_request ''/pets?limit=1,2'' No_query None)
            (Some (hd (getOperations override_router))))
     = [[(''limit'', QArray [''1'', ''2''])]]
   \<and> fst (parseRequest no_libraries override_router []
            (raw_request ''/pets?limit=1,2'' No_query None)
            (Some ((hd (getOperations override_router))
               \<lparr>parameters :=
                  [\<lparr>name = ''limit'', located_in = ''query'', style = Some ''form'',
                    explode = Some True\<rparr>]\<rparr>)))
     = [[(''limit'', QString ''1,2'')]]"
  by code_simp

text \<open>
  Claim C7, amended. Every descriptor that the registry produces comes from an operation
  object of a path item of the document. Its parameters are the operation's own
  parameters followed by the shared parameters of the path item, all of them: a shared
  parameter stays in the list when the operation declares the same name. So a lookup
  that takes the first entry with a given property (a name, or a name and a location)
  returns the operation's own entry whenever there is one, and the shared entry
  otherwise. Its security requirement is the operation's own if present, else the
  default of the document, else empty.
\<close>

theorem descriptor_merges_parameters_and_security:
  assumes "d \<in> set (getOperations r)"
  shows "\<exists>item op.
           (path d, item) \<in> set (or_empty (paths (api_definition r)))
         \<and> map_of (entries item) (op_method d) = Some op
         \<and> parameters d = or_empty (own_parameters op) @ or_empty (shared_parameters item)
         \<and> (\<forall>P q. find P (or_empty (own_parameters op)) = Some q
                \<longrightarrow> find P (parameters d) = Some q)
         \<and> (\<forall>P. find P (or_empty (own_parameters op)) = None
                \<longrightarrow> find P (parameters d) = find P (or_empty (shared_parameters item)))
         \<and> security d =
             (case own_security op of
                Some s \<Rightarrow> s
              | None \<Rightarrow> (case default_security (api_definition r) of Some s \<Rightarrow> s | None \<Rightarrow> []))"
proof -
  from assms obtain p item m op
    where item: "(p, item) \<in> set (or_empty (paths (api_definition r)))"
      and e: "(m, op) \<in> set (pick (entries item) http_methods)"
      and d: "d = make_operation (api_definition r) p item (m, op)"
    by (auto simp: getOperations_def)
  from e have look: "map_of (entries item) m = Some op"
    by (simp add: pick_lookup)
  have app: "find P (xs @ ys) = (case find P xs of Some x \<Rightarrow> Some x | None \<Rightarrow> find P ys)"
    for P and xs ys :: "parameter list"
    by (induction xs) auto
  show ?thesis
    by (rule exI [of _ item], rule exI [of _ op])
       (use item look in \<open>simp add: d make_operation_def app\<close>)
qed

theorem descriptor_merges_parameters_and_security_witness:
  "getOperations collision_router =
     [\<lparr>path = ''/pets'', op_method = ''get'',
       parameters = [limit_parameter ''pipeDelimited'', limit_parameter ''form''],
       security = [[(''apiKey'', [])]], operationId = Some ''listPets''\<rparr>]
   \<and> find (\<lambda>q. name q = ''limit'' \<and> located_in q = ''query'')
        (parameters (hd (getOperations collision_router)))
       = Some (limit_parameter ''pipeDelimited'')"
proof -
  let ?d = "hd (getOperations collision_router)"
  let ?P = "\<lambda>q. name q = ''limit'' \<and> located_in q = ''query''"
  have g: "getOperations collision_router =
     [\<lparr>path = ''/pets'', op_method = ''get'',
       parameters = [limit_parameter ''pipeDelimited'', limit_parameter ''form''],
       security = [[(''apiKey'', [])]], operationId = Some ''listPets''\<rparr>]"
    by code_simp
  then have h: "?d \<in> set (getOperations collision_router)"
    by simp
  from descriptor_merges_parameters_and_security [OF h] obtain item op
    where item: "(path ?d, item) \<in> set (or_empty (paths (api_definition collision_router)))"
      and op: "map_of (entries item) (op_method ?d) = Some op"
      and own: "\<forall>P q. find P (or_empty (own_parameters op)) = Some q
                  \<longrightarrow> find P (parameters ?d) = Some q"
    by blast
  from item have "item = \<lparr>shared_parameters = Some [limit_parameter ''form''],
             entries =
               [(''get'',
                 \<lparr>own_parameters = Some [limit_parameter ''pipeDelimited''],
                  own_security = None,
                  own_operationId = Some ''listPets''\<rparr>)]\<rparr>"
    by (simp add: collision_router_def OpenAPIRouter_def or_empty_def)
  with op g have "own_parameters op = Some [limit_parameter ''pipeDelimited'']"
    by auto
  then have "find ?P (or_empty (own_parameters op)) = Some (limit_parameter ''pipeDelimited'')"
    by (simp add: or_empty_def limit_parameter_def)
  with own have "find ?P (parameters ?d) = Some (limit_parameter ''pipeDelimited'')"
    by blast
  with g show ?thesis by simp
qed

text \<open>
  Claim C8, as stated, at a path item that declares \<^verbatim>\<open>post\<close> before \<^verbatim>\<open>get\<close>: the
  registry lists \<^verbatim>\<open>get\<close> first, which is not the iteration order of the document.
\<close>

theorem registry_order_counterexample:
  "map operation_key (getOperations unordered_router)
     = [(''/pets'', ''get''), (''/pets'', ''post'')]
   \<and> document_order (api_definition unordered_router)
     = [(''/pets'', ''post''), (''/pets'', ''get'')]
   \<and> map operation_key (getOperations unordered_router)
     \<noteq> document_order (api_definition unordered_router)"
  by code_simp

text \<open>
  Claim C8, amended. For a document whose path keys are distinct, \<open>getOperations\<close>
  returns one descriptor for each method that a path item declares and no other: the
  paths follow the iteration order of the document, and under one path the methods
  follow the fixed order get, put, post, delete, options, head, patch, trace, whatever
  their order in the path item. No two descriptors share path and method, and the
  (path, method) pairs are those of the document.
\<close>

theorem registry_lists_each_declared_method_once:
  assumes "distinct (map fst (or_empty (paths (api_definition r))))"
  shows "map operation_key (getOperations r)
           = concat (map (\<lambda>(p, item).
                            map (Pair p) (filter (\<lambda>m. map_of (entries item) m \<noteq> None)
                               [''get'', ''put'', ''post'', ''delete'', ''options'', ''head'',
                                ''patch'', ''trace'']))
                         (or_empty (paths (api_definition r))))
    \<and> distinct (map operation_key (getOperations r))
    \<and> set (map operation_key (getOperations r)) = set (document_order (api_definition r))"
proof -
  have 1: "map operation_key (getOperations r)
           = concat (map (\<lambda>(p, item).
                            map (Pair p) (filter (\<lambda>m. map_of (entries item) m \<noteq> None)
                               [''get'', ''put'', ''post'', ''delete'', ''options'', ''head'',
                                ''patch'', ''trace'']))
                         (or_empty (paths (api_definition r))))"
    using keys_getOperations [of r] by (simp only: declared_methods_def http_methods_def)
  have 2: "distinct (map operation_key (getOperations r))"
    by (rule distinct_keys_getOperations [OF assms])
  have "set (declared_methods item)
        = set (filter (\<lambda>k. k \<in> set http_methods) (map fst (entries item)))" for item
    by (auto simp: declared_methods_def map_of_eq_None_iff image_iff)
  then have 3: "set (map operation_key (getOperations r))
                = set (document_order (api_definition r))"
    by (simp add: keys_getOperations document_order_def split_def)
  from 1 2 3 show ?thesis by blast
qed

theorem registry_lists_each_declared_method_once_witness:
  "distinct (map fst (or_empty (paths (api_definition pets_router))))
   \<and> map operation_key (getOperations pets_router)
       = [(''/pets/{id}'', ''get''), (''/pets/{id}/photos'', ''get''), (''/pets/mine'', ''get'')]
   \<and> distinct (map operation_key (getOperations pets_router))"
proof -
  have h: "distinct (map fst (or_empty (paths (api_definition pets_router))))"
    by code_simp
  have e: "concat (map (\<lambda>(p, item).
                            map (Pair p) (filter (\<lambda>m. map_of (entries item) m \<noteq> None)
                               [''get'', ''put'', ''post'', ''delete'', ''options'', ''head'',
                                ''patch'', ''trace'']))
                         (or_empty (paths (api_definition pets_router))))
           = [(''/pets/{id}'', ''get''), (''/pets/{id}/photos'', ''get''), (''/pets/mine'', ''get'')]"
    by code_simp
  from registry_lists_each_declared_method_once [OF h] h e show ?thesis
    by simp
qed

section \<open>Parameter parser: the claims\<close>

text \<open>
  Claim C4, at the descriptor that the registry builds for \<open>collision_router\<close>, where
  the path item and the operation both declare the query parameter \<^verbatim>\<open>limit\<close> with
  \<^verbatim>\<open>explode: false\<close>, and the request \<^verbatim>\<open>GET /pets?limit=5\<close>. Both declarations pass
  the two filters of the second pass, which are evaluated before its loop starts; the
  loop splits the value at the first declaration and calls \<^verbatim>\<open>split\<close> on the array at the
  second. \<open>parseRequest\<close> ends with a \<^verbatim>\<open>TypeError\<close> and returns no query.
\<close>

theorem duplicate_declaration_raises:
  "parameters (hd (getOperations collision_router))
     = [limit_parameter ''pipeDelimited'', limit_parameter ''form'']
   \<and> parseRequest no_libraries collision_router []
        (raw_request ''/pets?limit=5'' No_query None)
        (Some (hd (getOperations collision_router)))
     = ([[(''limit'', QArray [''5''])]],
        Inl (TypeError ''query[p.name].split is not a function''))"
  by code_simp

text \<open>
  Claim C5, as stated, at a request whose query is the object \<^verbatim>\<open>{a: "1,2,3"}\<close> and an
  operation that declares \<^verbatim>\<open>a\<close> with \<^verbatim>\<open>explode: false\<close>: the second pass applies, and the
  query of the result holds an array, not the string that was supplied.
\<close>

theorem object_query_is_split_counterexample:
  "load [[(''a'', QString ''1,2,3'')]] 0 = [(''a'', QString ''1,2,3'')]
   \<and> parseRequest no_libraries pets_router [[(''a'', QString ''1,2,3'')]]
        (raw_request ''/pets'' (Query_object 0) None)
        (Some (operation_with [array_parameter ''a'' None]))
     = ([[(''a'', QArray [''1'', ''2'', ''3''])]], Inr (parsed_pets None None))
   \<and> load [[(''a'', QArray [''1'', ''2'', ''3''])]] (query (parsed_pets None None))
     = [(''a'', QArray [''1'', ''2'', ''3''])]"
  by code_simp

text \<open>
  Claim C5, amended. If the raw request supplies a query object, the query of the result
  is that object, and the first pass (decoding the query string again) does not apply to
  it. The second pass applies whenever an operation is given: the object then holds what
  the second pass makes of its content. It is left as it was when no operation is given,
  and when no parameter declared in the query with \<^verbatim>\<open>explode: false\<close> has a string as
  its value. When the query is not an object and no operation is given, neither pass
  runs: the query of the result is a new object, as \<open>parseQuery\<close> decodes it from the
  query string of the path.
\<close>

theorem object_query_meets_second_pass_only:
  assumes "parseRequest lib r st req operation = (st', Inr res)"
  shows "(\<forall>a. req_query req = Query_object a \<longrightarrow>
            query res = a
          \<and> (operation = None \<longrightarrow> st' = st)
          \<and> (\<forall>op. operation = Some op \<longrightarrow>
                st' = save st a (fst (second_pass (parameters op) (load st a))))
          \<and> (\<forall>op. operation = Some op \<and> unsplit (load st a) (parameters op) = []
                \<longrightarrow> st' = st))
    \<and> (\<not> is_query_object (req_query req) \<and> operation = None \<longrightarrow>
            query res = length st
          \<and> parseQuery False (query_string_of (req_path req)) = Inr (load st' (length st))
          \<and> st' = st @ [load st' (length st)])"
proof -
  have 1: "query res = a
      \<and> (operation = None \<longrightarrow> st' = st)
      \<and> (\<forall>op. operation = Some op \<longrightarrow>
            st' = save st a (fst (second_pass (parameters op) (load st a))))
      \<and> (\<forall>op. operation = Some op \<and> unsplit (load st a) (parameters op) = []
            \<longrightarrow> st' = st)"
    if q: "req_query req = Query_object a" for a
  proof -
    note facts = parseRequest_object [OF q assms]
    have "st' = st" if "operation = Some op" and "unsplit (load st a) (parameters op) = []" for op
      using facts(3) [OF that(1)] second_pass_nothing_to_split [OF that(2)]
      by (simp add: save_load_same)
    with facts show ?thesis by blast
  qed
  have 2: "query res = length st
      \<and> parseQuery False (query_string_of (req_path req)) = Inr (load st' (length st))
      \<and> st' = st @ [load st' (length st)]"
    if "\<not> is_query_object (req_query req)" and "operation = None"
    using assms that
    by (auto simp: parseRequest_def Let_def initial_query_def is_query_object_def load_def
        split: sum.splits raw_query.splits)
  from 1 2 show ?thesis by blast
qed

theorem object_query_meets_second_pass_only_witness:
  "parseRequest no_libraries pets_router [[(''a'', QString ''1,2,3'')]]
        (raw_request ''/pets?a=4,5'' (Query_object 0) None) None
     = ([[(''a'', QString ''1,2,3'')]], Inr (parsed_pets None None))
   \<and> unsplit [(''a'', QString ''1,2,3'')] [array_parameter ''b'' None] = []
   \<and> parseRequest no_libraries pets_router [[(''a'', QString ''1,2,3'')]]
        (raw_request ''/pets?a=4,5'' (Query_object 0) None)
        (Some (operation_with [array_parameter ''b'' None]))
     = ([[(''a'', QString ''1,2,3'')]], Inr (parsed_pets None None))
   \<and> fst (parseRequest no_libraries pets_router [[(''a'', QString ''1|2'')]]
        (raw_request ''/pets?a=4,5'' (Query_object 0) None)
        (Some (operation_with [array_parameter ''a'' (Some ''pipeDelimited'')])))
     = save [[(''a'', QString ''1|2'')]] 0 [(''a'', QArray [''1'', ''2''])]"
proof -
  let ?st = "[[(''a'', QString ''1,2,3'')]]"
  let ?st2 = "[[(''a'', QString ''1|2'')]]"
  let ?req = "raw_request ''/pets?a=4,5'' (Query_object 0) None"
  let ?opb = "operation_with [array_parameter ''b'' None]"
  let ?opa = "operation_with [array_parameter ''a'' (Some ''pipeDelimited'')]"
  have q: "req_query ?req = Query_object 0"
    by (simp add: raw_request_def)
  have r1: "parseRequest no_libraries pets_router ?st ?req None
            = (?st, Inr (parsed_pets None None))"
    by code_simp
  have r2: "parseRequest no_libraries pets_router ?st ?req (Some ?opb)
            = (?st, Inr (parsed_pets None None))"
    by code_simp
  have r3: "parseRequest no_libraries pets_router ?st2 ?req (Some ?opa)
            = ([[(''a'', QArray [''1'', ''2''])]], Inr (parsed_pets None None))"
    by code_simp
  have u: "unsplit [(''a'', QString ''1,2,3'')] [array_parameter ''b'' None] = []"
    by code_simp
  have s: "fst (second_pass (parameters ?opa) (load ?st2 0)) = [(''a'', QArray [''1'', ''2''])]"
    by code_simp
  from object_query_meets_second_pass_only [OF r3] q
  have "[[(''a'', QArray [''1'', ''2''])]]
        = save ?st2 0 (fst (second_pass (parameters ?opa) (load ?st2 0)))"
    by blast
  with r1 r2 r3 u s show ?thesis by simp
qed

text \<open>
  Claim C6, for every host: \<^verbatim>\<open>JSON.parse\<close> is any function from texts to a value or an
  error, and a number is a value of any type with any test for truth and any
  \<^verbatim>\<open>toString\<close>. For every request, the body step of \<open>parseRequest\<close> (lines 232 to 241)
  yields: nothing if the body is absent; the body itself if the body is a structured
  value or counts as false; and otherwise the value that \<^verbatim>\<open>JSON.parse\<close> returns for the
  text of the body, or the body itself if \<^verbatim>\<open>JSON.parse\<close> raises an error. The body step
  raises no error: it is without a result only where the function given for
  \<^verbatim>\<open>JSON.parse\<close> has none for the text of the body, which is never the case for a function
  of a host. Whenever \<open>parseRequest\<close> returns a parsed request, its \<open>requestBody\<close> is what
  the body step yields; and whenever the body step yields a result, \<open>parseRequest\<close>
  returns a parsed request with that \<open>requestBody\<close> wherever its other steps (the decoding
  of the query string and, given an operation, the steps for the operation) succeed. In
  the host of the examples, the string \<^verbatim>\<open>{"x":1}\<close> becomes the object with \<open>x\<close> equal to
  1, the string \<^verbatim>\<open>not json\<close> stays as it is, and a value that counts as false is what
  decoding it would give.
\<close>

theorem body_is_decoded_or_kept:
  "(req_body req = None \<longrightarrow> parseBody lib (req_body req) = Inr None)
   \<and> (\<forall>v. req_body req = Some v \<and> (is_object v \<or> \<not> truthy lib v)
          \<longrightarrow> parseBody lib (req_body req) = Inr (Some v))
   \<and> (\<forall>v parsed. req_body req = Some v \<and> truthy lib v \<and> \<not> is_object v
          \<and> JSON_parse lib (toString lib v) = Inr parsed
          \<longrightarrow> parseBody lib (req_body req) = Inr (Some parsed))
   \<and> (\<forall>v e. req_body req = Some v \<and> truthy lib v \<and> \<not> is_object v
          \<and> JSON_parse lib (toString lib v) = Inl e \<and> e \<noteq> Unsupported
          \<longrightarrow> parseBody lib (req_body req) = Inr (Some v))
   \<and> (\<forall>e. parseBody lib (req_body req) = Inl e \<longrightarrow>
         e = Unsupported
       \<and> (\<exists>v. req_body req = Some v \<and> truthy lib v \<and> \<not> is_object v
              \<and> JSON_parse lib (toString lib v) = Inl Unsupported))
   \<and> (\<forall>st' res. parseRequest lib r st req operation = (st', Inr res) \<longrightarrow>
         parseBody lib (req_body req) = Inr (requestBody res))
   \<and> (\<forall>rb. parseBody lib (req_body req) = Inr rb \<longrightarrow>
         (\<forall>a st1. initial_query st req = Inr (a, st1) \<longrightarrow>
            (\<exists>res. parseRequest lib r st req None = (st1, Inr res) \<and> requestBody res = rb))
       \<and> (\<forall>a st1 op st2 ps.
              initial_query st req = Inr (a, st1)
              \<and> with_operation lib r req op a st1 = (st2, Inr ps) \<longrightarrow>
            (\<exists>res. parseRequest lib r st req (Some op) = (st2, Inr res)
                   \<and> requestBody res = rb)))
   \<and> parseBody no_libraries (Some (JStr object_text)) = Inr (Some (JObj [(''x'', JNum 1)]))
   \<and> parseBody no_libraries (Some (JStr ''not json'')) = Inr (Some (JStr ''not json''))
   \<and> (\<forall>v. \<not> truthy no_libraries v \<and> \<not> is_object v \<longrightarrow> decoded no_libraries v = v)"
proof -
  have 1: "(req_body req = None \<longrightarrow> parseBody lib (req_body req) = Inr None)
   \<and> (\<forall>v. req_body req = Some v \<and> (is_object v \<or> \<not> truthy lib v)
          \<longrightarrow> parseBody lib (req_body req) = Inr (Some v))
   \<and> (\<forall>v parsed. req_body req = Some v \<and> truthy lib v \<and> \<not> is_object v
          \<and> JSON_parse lib (toString lib v) = Inr parsed
          \<longrightarrow> parseBody lib (req_body req) = Inr (Some parsed))
   \<and> (\<forall>v e. req_body req = Some v \<and> truthy lib v \<and> \<not> is_object v
          \<and> JSON_parse lib (toString lib v) = Inl e \<and> e \<noteq> Unsupported
          \<longrightarrow> parseBody lib (req_body req) = Inr (Some v))"
    by (auto simp: parseBody_def)
  have 2: "e = Unsupported
       \<and> (\<exists>v. req_body req = Some v \<and> truthy lib v \<and> \<not> is_object v
              \<and> JSON_parse lib (toString lib v) = Inl Unsupported)"
    if "parseBody lib (req_body req) = Inl e" for e
    using that by (simp add: parseBody_error)
  have 3: "parseBody lib (req_body req) = Inr (requestBody res)"
    if "parseRequest lib r st req operation = (st', Inr res)" for st' res
    using that by (rule parseRequest_requestBody)
  have 4: "(\<forall>a st1. initial_query st req = Inr (a, st1) \<longrightarrow>
            (\<exists>res. parseRequest lib r st req None = (st1, Inr res) \<and> requestBody res = rb))
       \<and> (\<forall>a st1 op st2 ps.
              initial_query st req = Inr (a, st1)
              \<and> with_operation lib r req op a st1 = (st2, Inr ps) \<longrightarrow>
            (\<exists>res. parseRequest lib r st req (Some op) = (st2, Inr res)
                   \<and> requestBody res = rb))"
    if rb: "parseBody lib (req_body req) = Inr rb" for rb
  proof -
    have "\<exists>res. parseRequest lib r st req None = (st1, Inr res) \<and> requestBody res = rb"
      if "initial_query st req = Inr (a, st1)" for a st1
      using rb that by (simp add: parseRequest_def Let_def)
    moreover have "\<exists>res. parseRequest lib r st req (Some op) = (st2, Inr res)
                        \<and> requestBody res = rb"
      if "initial_query st req = Inr (a, st1)"
        and "with_operation lib r req op a st1 = (st2, Inr ps)" for a st1 op st2 ps
      using rb that by (simp add: parseRequest_def Let_def)
    ultimately show ?thesis by blast
  qed
  have 5: "parseBody no_libraries (Some (JStr object_text)) = Inr (Some (JObj [(''x'', JNum 1)]))"
    by code_simp
  have 6: "parseBody no_libraries (Some (JStr ''not json'')) = Inr (Some (JStr ''not json''))"
    by code_simp
  have 7: "\<forall>v. \<not> truthy no_libraries v \<and> \<not> is_object v \<longrightarrow> decoded no_libraries v = v"
    by (simp add: falsy_decodes_to_itself)
  from 1 2 3 4 5 6 7 show ?thesis by blast
qed

theorem body_is_decoded_or_kept_witness:
  "parseRequest no_libraries pets_router []
        (raw_request ''/pets'' No_query (Some (JStr object_text))) None
     = ([[]], Inr (parsed_pets (Some (JStr object_text)) (Some (JObj [(''x'', JNum 1)]))))
   \<and> JSON_parse no_libraries object_text = Inr (JObj [(''x'', JNum 1)])
   \<and> parseBody no_libraries (Some (JStr object_text)) = Inr (Some (JObj [(''x'', JNum 1)]))
   \<and> parseRequest no_libraries pets_router []
        (raw_request ''/pets'' No_query (Some (JStr ''not json''))) None
     = ([[]], Inr (parsed_pets (Some (JStr ''not json'')) (Some (JStr ''not json''))))
   \<and> JSON_parse no_libraries ''not json'' = Inl (SyntaxError ''JSON.parse'')
   \<and> parseBody no_libraries (Some (JStr ''not json'')) = Inr (Some (JStr ''not json''))
   \<and> parseBody no_libraries (Some (JArr [JStr ''not json''])) = Inr (Some (JArr [JStr ''not json'']))
   \<and> parseBody no_libraries (Some (JNum 0)) = Inr (Some (JNum 0))
   \<and> parseBody no_libraries None = Inr None
   \<and> parseBody no_libraries (Some (JStr ''1.5'')) = Inl Unsupported
   \<and> JSON_parse no_libraries ''1.5'' = Inl Unsupported
   \<and> map_sum id requestBody (snd (parseRequest no_libraries pets_router []
        (raw_request ''/pets'' No_query (Some (JStr object_text)))
        (Some (operation_with [array_parameter ''a'' None]))))
     = Inr (Some (JObj [(''x'', JNum 1)]))"
proof -
  let ?a = "raw_request ''/pets'' No_query (Some (JStr object_text))"
  let ?b = "raw_request ''/pets'' No_query (Some (JStr ''not json''))"
  let ?c = "raw_request ''/pets'' No_query (Some (JArr [JStr ''not json'']))"
  let ?d = "raw_request ''/pets'' No_query (Some (JNum 0))"
  let ?e = "raw_request ''/pets'' No_query (Some (JStr ''1.5''))"
  let ?n = "raw_request ''/pets'' No_query None"
  let ?op = "operation_with [array_parameter ''a'' None]"
  have bodies: "req_body ?a = Some (JStr object_text)" "req_body ?b = Some (JStr ''not json'')"
    "req_body ?c = Some (JArr [JStr ''not json''])" "req_body ?d = Some (JNum 0)"
    "req_body ?e = Some (JStr ''1.5'')" "req_body ?n = None"
    by (simp_all add: raw_request_def)
  have str: "toString no_libraries (JStr s) = s" for s
    by simp
  have ta: "truthy no_libraries (JStr object_text) \<and> \<not> is_object (JStr object_text)"
    by code_simp
  have tb: "truthy no_libraries (JStr ''not json'') \<and> \<not> is_object (JStr ''not json'')"
    by code_simp
  have tc: "is_object (JArr [JStr ''not json''])"
    by simp
  have td: "\<not> truthy no_libraries (JNum 0)"
    by code_simp
  have ja: "JSON_parse no_libraries object_text = Inr (JObj [(''x'', JNum 1)])"
    by code_simp
  have jb: "JSON_parse no_libraries ''not json'' = Inl (SyntaxError ''JSON.parse'')"
    by code_simp
  have pe: "parseBody no_libraries (Some (JStr ''1.5'')) = Inl Unsupported"
    by code_simp
  have qa: "initial_query [] ?a = Inr (0, [[]])"
    by code_simp
  have wa: "with_operation no_libraries pets_router ?a ?op 0 [[]] = ([[]], Inr [])"
    by code_simp
  have a: "parseRequest no_libraries pets_router [] ?a None
           = ([[]], Inr (parsed_pets (Some (JStr object_text)) (Some (JObj [(''x'', JNum 1)]))))"
    by code_simp
  have b: "parseRequest no_libraries pets_router [] ?b None
           = ([[]], Inr (parsed_pets (Some (JStr ''not json'')) (Some (JStr ''not json''))))"
    by code_simp
  note A = body_is_decoded_or_kept [of ?a no_libraries pets_router "[]" None]
  note B = body_is_decoded_or_kept [of ?b no_libraries pets_router "[]" None]
  note C = body_is_decoded_or_kept [of ?c no_libraries pets_router "[]" None]
  note D = body_is_decoded_or_kept [of ?d no_libraries pets_router "[]" None]
  note E = body_is_decoded_or_kept [of ?e no_libraries pets_router "[]" None]
  note N = body_is_decoded_or_kept [of ?n no_libraries pets_router "[]" None]
  from A [THEN conjunct2, THEN conjunct2, THEN conjunct1, rule_format,
      of "JStr object_text" "JObj [(''x'', JNum 1)]"] ta ja
  have pa: "parseBody no_libraries (Some (JStr object_text))
      = Inr (Some (JObj [(''x'', JNum 1)]))"
    by (simp add: bodies)
  from B [THEN conjunct2, THEN conjunct2, THEN conjunct2, THEN conjunct1, rule_format,
      of "JStr ''not json''" "SyntaxError ''JSON.parse''"] tb jb
  have pb: "parseBody no_libraries (Some (JStr ''not json''))
      = Inr (Some (JStr ''not json''))"
    by (simp add: bodies)
  from C [THEN conjunct2, THEN conjunct1, rule_format, of "JArr [JStr ''not json'']"] tc
  have pc: "parseBody no_libraries (Some (JArr [JStr ''not json'']))
      = Inr (Some (JArr [JStr ''not json'']))"
    by (simp add: bodies)
  from D [THEN conjunct2, THEN conjunct1, rule_format, of "JNum 0"] td
  have pd: "parseBody no_libraries (Some (JNum 0)) = Inr (Some (JNum 0))"
    by (simp add: bodies)
  from N [THEN conjunct1]
  have pn: "parseBody no_libraries None = Inr None"
    by (simp add: bodies)
  from E [THEN conjunct2, THEN conjunct2, THEN conjunct2, THEN conjunct2, THEN conjunct1,
      rule_format, of Unsupported] pe
  have je: "JSON_parse no_libraries ''1.5'' = Inl Unsupported"
    by (simp add: bodies)
  from A [THEN conjunct2, THEN conjunct2, THEN conjunct2, THEN conjunct2, THEN conjunct2,
      THEN conjunct2, THEN conjunct1, rule_format, of "Some (JObj [(''x'', JNum 1)])",
      THEN conjunct2, rule_format, of 0 "[[]]" ?op "[[]]" "[]"] pa qa wa
  obtain res
    where "parseRequest no_libraries pets_router [] ?a (Some ?op) = ([[]], Inr res)"
      and "requestBody res = Some (JObj [(''x'', JNum 1)])"
    by (auto simp: bodies)
  then have f: "map_sum id requestBody (snd (parseRequest no_libraries pets_router [] ?a (Some ?op)))
      = Inr (Some (JObj [(''x'', JNum 1)]))"
    by simp
  from a ja pa b jb pb pc pd pn pe je f show ?thesis by simp
qed




end
